theory Spec2Isabelle
  imports Complex_Main
begin

section \<open>Conventions\<close>

text \<open>
  Conventions of the embedding.
  \<^item> A JavaScript string is the list of its UTF-16 code units (\<open>jsstring\<close>); \<open>js\<close> turns
    an ASCII literal into one. \<open>.length\<close> is \<open>length\<close>.
  \<^item> A \<open>number\<close> (prices, stock, quantities, totals) is an IEEE 754 double, as the
    schema takes any JavaScript number there: the type \<open>number\<close> below, with the
    runtime's rounding written out.
  \<^item> A \<open>Date\<close> is its millisecond time stamp; \<open>new Date()\<close> and \<open>randomUUID()\<close> are
    arguments of the operation that calls them.
  \<^item> Record fields carry a prefix for their type (\<open>p_stock\<close> is \<open>Product.stock\<close>), since
    several types of the schema share field names.
  \<^item> A \<open>Product\<close> object lives in an explicit object store (\<open>heap\<close>): the \<open>Map\<close> of
    products holds references, \<open>getProduct\<close> hands the reference out, and
    \<open>updateProductStock\<close> writes through it.
\<close>

type_synonym jsstring = "nat list"
type_synonym date = int
type_synonym ref = nat

definition js :: "string \<Rightarrow> jsstring" where
  "js s = map of_char s"

section \<open>JavaScript numbers\<close>

text \<open>
  A \<open>number\<close> is a finite double, given by its value, an infinity or \<open>NaN\<close>. The two
  zeros are one value here: they compare equal and serialise alike, and nothing in the
  program divides. The numbers of a request are doubles (\<open>JSON.parse\<close> yields no
  others) and every operation returns a double; what is proved of all of \<open>Num r\<close> holds
  of them.

  The arithmetic is that of the runtime: the exact result, rounded to the nearest double
  with ties to the even significand. A positive value is scaled by a power of two into
  the range of 53-bit significands, from \<open>2^52\<close> up to \<open>2^53\<close> (or, for a subnormal, as far
  as the least exponent -1074 allows), the significand is rounded there, and a result of
  \<open>2^1024\<close> or more is \<open>Infinity\<close>.
\<close>

datatype number = Num rat | Infinity | MinusInfinity | NaN

definition round_half_even :: "rat \<Rightarrow> int" where
  "round_half_even x =
     (let f = \<lfloor>x\<rfloor>; d = x - of_int f
      in if d < 1 / 2 then f else if 1 / 2 < d then f + 1 else if even f then f else f + 1)"

function scale_down :: "rat \<Rightarrow> int \<Rightarrow> rat \<times> int" where
  "scale_down x e = (if 9007199254740992 \<le> x then scale_down (x / 2) (e + 1) else (x, e))"
  by pat_completeness auto
termination
proof (relation "measure (\<lambda>(x, e). nat \<lfloor>x\<rfloor>)")
  show "wf (measure (\<lambda>(x, e). nat \<lfloor>x\<rfloor>))" by simp
next
  fix x :: rat and e :: int
  assume a: "9007199254740992 \<le> x"
  then have "x / 2 \<le> x - 1" by simp
  then have "\<lfloor>x / 2\<rfloor> \<le> \<lfloor>x - 1\<rfloor>" by (rule floor_mono)
  moreover from a have "1 \<le> \<lfloor>x\<rfloor>" by linarith
  ultimately show "((x / 2, e + 1), (x, e)) \<in> measure (\<lambda>(x, e). nat \<lfloor>x\<rfloor>)"
    by simp
qed

function scale_up :: "rat \<Rightarrow> int \<Rightarrow> rat \<times> int" where
  "scale_up x e =
     (if x < 4503599627370496 \<and> - 1074 < e then scale_up (x * 2) (e - 1) else (x, e))"
  by pat_completeness auto
termination
  by (relation "measure (\<lambda>(x, e). nat (e + 1074))") auto

declare scale_down.simps [simp del] scale_up.simps [simp del]

definition round_pos :: "rat \<Rightarrow> number" where
  "round_pos x =
     (case (if 9007199254740992 \<le> x then scale_down x 0 else scale_up x 0) of
        (y, e) \<Rightarrow>
          let v = of_int (round_half_even y) * (if 0 \<le> e then 2 ^ nat e else 1 / 2 ^ nat (- e))
          in if 2 ^ 1024 \<le> v then Infinity else Num v)"

fun number_neg :: "number \<Rightarrow> number" where
  "number_neg (Num a) = Num (- a)"
| "number_neg Infinity = MinusInfinity"
| "number_neg MinusInfinity = Infinity"
| "number_neg NaN = NaN"

definition round_double :: "rat \<Rightarrow> number" where
  "round_double x =
     (if x = 0 then Num 0 else if 0 < x then round_pos x else number_neg (round_pos (- x)))"

text \<open>The operators \<open>+\<close>, \<open>-\<close>, \<open>*\<close> and \<open><\<close> on numbers.\<close>

fun number_add :: "number \<Rightarrow> number \<Rightarrow> number" where
  "number_add NaN b = NaN"
| "number_add a NaN = NaN"
| "number_add Infinity MinusInfinity = NaN"
| "number_add MinusInfinity Infinity = NaN"
| "number_add Infinity b = Infinity"
| "number_add a Infinity = Infinity"
| "number_add MinusInfinity b = MinusInfinity"
| "number_add a MinusInfinity = MinusInfinity"
| "number_add (Num a) (Num b) = round_double (a + b)"

definition number_sub :: "number \<Rightarrow> number \<Rightarrow> number" where
  "number_sub a b = number_add a (number_neg b)"

fun number_mul :: "number \<Rightarrow> number \<Rightarrow> number" where
  "number_mul NaN b = NaN"
| "number_mul a NaN = NaN"
| "number_mul (Num a) (Num b) = round_double (a * b)"
| "number_mul (Num a) Infinity =
     (if a = 0 then NaN else if 0 < a then Infinity else MinusInfinity)"
| "number_mul (Num a) MinusInfinity =
     (if a = 0 then NaN else if 0 < a then MinusInfinity else Infinity)"
| "number_mul Infinity (Num b) =
     (if b = 0 then NaN else if 0 < b then Infinity else MinusInfinity)"
| "number_mul MinusInfinity (Num b) =
     (if b = 0 then NaN else if 0 < b then MinusInfinity else Infinity)"
| "number_mul Infinity Infinity = Infinity"
| "number_mul MinusInfinity MinusInfinity = Infinity"
| "number_mul Infinity MinusInfinity = MinusInfinity"
| "number_mul MinusInfinity Infinity = MinusInfinity"

fun number_less :: "number \<Rightarrow> number \<Rightarrow> bool" where
  "number_less NaN b = False"
| "number_less a NaN = False"
| "number_less (Num a) (Num b) = (a < b)"
| "number_less a MinusInfinity = False"
| "number_less Infinity b = False"
| "number_less MinusInfinity b = True"
| "number_less a Infinity = True"

section \<open>Data model (shared/schema.ts)\<close>

datatype product_type = Pet | Food | Accessory

record product =
  p_id :: jsstring
  p_name :: jsstring
  p_categoryId :: jsstring
  p_type :: product_type
  p_species :: "jsstring option"
  p_images :: "jsstring list"
  p_description :: jsstring
  p_priceInINR :: number
  p_stock :: number
  p_available :: bool
  p_createdAt :: date

record insert_product =
  ip_name :: jsstring
  ip_categoryId :: jsstring
  ip_type :: product_type
  ip_species :: "jsstring option"
  ip_description :: jsstring
  ip_priceInINR :: number
  ip_stock :: number
  ip_available :: bool

text \<open>\<open>Partial<InsertProduct>\<close>: an absent key is \<open>None\<close>.\<close>

record update_product =
  up_name :: "jsstring option"
  up_categoryId :: "jsstring option"
  up_type :: "product_type option"
  up_species :: "jsstring option"
  up_description :: "jsstring option"
  up_priceInINR :: "number option"
  up_stock :: "number option"
  up_available :: "bool option"

record category =
  c_id :: jsstring
  c_name :: jsstring
  c_slug :: jsstring
  c_description :: jsstring
  c_createdAt :: date

record insert_category =
  ic_name :: jsstring
  ic_description :: jsstring

text \<open>\<open>Partial<InsertCategory>\<close>.\<close>

record update_category =
  uc_name :: "jsstring option"
  uc_description :: "jsstring option"

record customer =
  cu_name :: jsstring
  cu_phone :: jsstring
  cu_altPhone :: "jsstring option"
  cu_address :: jsstring

text \<open>A line item of an order request (\<open>InsertOrder.products[i]\<close>).\<close>

record insert_line =
  productId :: jsstring
  quantity :: number

record insert_order =
  io_products :: "insert_line list"
  io_customer :: customer

text \<open>A line item of a stored order: the snapshot of the product's name and price.\<close>

record order_line =
  ol_productId :: jsstring
  ol_name :: jsstring
  ol_priceInINR :: number
  ol_quantity :: number

datatype order_status = Pending | Completed | Cancelled

record order =
  o_id :: jsstring
  o_products :: "order_line list"
  o_customer :: customer
  o_totalAmountINR :: number
  o_status :: order_status
  o_createdAt :: date

record site_settings =
  s_id :: jsstring
  s_description :: jsstring
  s_youtubeUrl :: jsstring
  s_updatedAt :: date

text \<open>\<open>UpdateSiteSettings\<close>, the output type of \<open>updateSiteSettingsSchema\<close>.\<close>

record update_site_settings =
  us_description :: jsstring
  us_youtubeUrl :: jsstring

text \<open>
  What a request can fail with. \<open>NotFound\<close> is the 400 "One or more products not found",
  \<open>InsufficientStock n\<close> the 400 "Insufficient stock for product: ..." with \<open>n\<close> the value of
  \<open>product?.name\<close>, \<open>ValidationFailed\<close> a schema's \<open>parse\<close> that threw,
  \<open>ProductMissing i\<close> the \<open>Error\<close> that \<open>createOrder\<close> throws for the product id \<open>i\<close>,
  \<open>InvalidStatus\<close> the 400 "Invalid status", \<open>OrderNotFound\<close> and \<open>CategoryNotFound\<close> the
  404s, \<open>Unauthorized\<close> the 401 of \<open>requireAdmin\<close>.
\<close>

datatype error =
    NotFound
  | InsufficientStock "jsstring option"
  | ValidationFailed
  | ProductMissing jsstring
  | InvalidStatus
  | OrderNotFound
  | CategoryNotFound
  | Unauthorized

section \<open>MemStorage (server/storage.ts)\<close>

record mem_storage =
  categories :: "jsstring \<rightharpoonup> category"
  products :: "jsstring \<rightharpoonup> ref"
  heap :: "ref \<Rightarrow> product"
  next_ref :: ref
  orders :: "jsstring \<rightharpoonup> order"
  siteSettings :: site_settings

definition getProduct :: "mem_storage \<Rightarrow> jsstring \<Rightarrow> ref option" where
  "getProduct st i = products st i"

definition getOrder :: "mem_storage \<Rightarrow> jsstring \<Rightarrow> order option" where
  "getOrder st i = orders st i"

text \<open>\<open>createProduct\<close> allocates the object and stores its reference under the new id.\<close>

definition createProduct ::
  "mem_storage \<Rightarrow> jsstring \<Rightarrow> date \<Rightarrow> insert_product \<Rightarrow> ref \<times> mem_storage" where
  "createProduct st uuid now insertProduct =
     (let r = next_ref st;
          prod = \<lparr>p_id = uuid, p_name = ip_name insertProduct,
                   p_categoryId = ip_categoryId insertProduct, p_type = ip_type insertProduct,
                   p_species = ip_species insertProduct, p_images = [],
                   p_description = ip_description insertProduct,
                   p_priceInINR = ip_priceInINR insertProduct,
                   p_stock = ip_stock insertProduct,
                   p_available = ip_available insertProduct, p_createdAt = now\<rparr>
      in (r, st\<lparr>heap := (heap st)(r := prod), next_ref := Suc r,
                products := (products st)(uuid \<mapsto> r)\<rparr>))"

text \<open>\<open>{...product, ...updateData}\<close>: a key of the patch wins where it is present.\<close>

definition merge_product :: "product \<Rightarrow> update_product \<Rightarrow> product" where
  "merge_product p u =
     p\<lparr>p_name := (case up_name u of None \<Rightarrow> p_name p | Some v \<Rightarrow> v),
       p_categoryId := (case up_categoryId u of None \<Rightarrow> p_categoryId p | Some v \<Rightarrow> v),
       p_type := (case up_type u of None \<Rightarrow> p_type p | Some v \<Rightarrow> v),
       p_species := (case up_species u of None \<Rightarrow> p_species p | Some v \<Rightarrow> Some v),
       p_description := (case up_description u of None \<Rightarrow> p_description p | Some v \<Rightarrow> v),
       p_priceInINR := (case up_priceInINR u of None \<Rightarrow> p_priceInINR p | Some v \<Rightarrow> v),
       p_stock := (case up_stock u of None \<Rightarrow> p_stock p | Some v \<Rightarrow> v),
       p_available := (case up_available u of None \<Rightarrow> p_available p | Some v \<Rightarrow> v)\<rparr>"

text \<open>\<open>updateProduct\<close> builds a new object and stores its reference under the key.\<close>

definition updateProduct ::
  "mem_storage \<Rightarrow> jsstring \<Rightarrow> update_product \<Rightarrow> ref option \<times> mem_storage" where
  "updateProduct st i u =
     (case products st i of
        None \<Rightarrow> (None, st)
      | Some r \<Rightarrow>
          let r' = next_ref st
          in (Some r',
              st\<lparr>heap := (heap st)(r' := merge_product (heap st r) u),
                 next_ref := Suc r',
                 products := (products st)(i \<mapsto> r')\<rparr>))"

definition deleteProduct :: "mem_storage \<Rightarrow> jsstring \<Rightarrow> bool \<times> mem_storage" where
  "deleteProduct st i =
     (products st i \<noteq> None, st\<lparr>products := (products st)(i := None)\<rparr>)"

text \<open>\<open>updateProductStock\<close> assigns to the field of the stored object itself.\<close>

definition updateProductStock ::
  "mem_storage \<Rightarrow> jsstring \<Rightarrow> number \<Rightarrow> ref option \<times> mem_storage" where
  "updateProductStock st i newStock =
     (case products st i of
        None \<Rightarrow> (None, st)
      | Some r \<Rightarrow>
          (Some r,
           st\<lparr>heap := (heap st)(r := (heap st r)\<lparr>p_stock := newStock\<rparr>),
              products := (products st)(i \<mapsto> r)\<rparr>))"

definition updateProductImages ::
  "mem_storage \<Rightarrow> jsstring \<Rightarrow> jsstring list \<Rightarrow> ref option \<times> mem_storage" where
  "updateProductImages st i imgs =
     (case products st i of
        None \<Rightarrow> (None, st)
      | Some r \<Rightarrow>
          (Some r,
           st\<lparr>heap := (heap st)(r := (heap st r)\<lparr>p_images := imgs\<rparr>),
              products := (products st)(i \<mapsto> r)\<rparr>))"

text \<open>
  \<open>createOrder\<close>. The \<open>map\<close> over the requested lines throws at the first line whose
  product is not in the array it was given; \<open>find\<close> takes the first product with the id.
\<close>

definition snapshot :: "product \<Rightarrow> insert_line \<Rightarrow> order_line" where
  "snapshot p l = \<lparr>ol_productId = productId l, ol_name = p_name p,
                    ol_priceInINR = p_priceInINR p, ol_quantity = quantity l\<rparr>"

fun order_lines ::
  "(ref \<Rightarrow> product) \<Rightarrow> ref list \<Rightarrow> insert_line list \<Rightarrow> error + order_line list" where
  "order_lines h ps [] = Inr []"
| "order_lines h ps (l # ls) =
     (case List.find (\<lambda>r. p_id (h r) = productId l) ps of
        None \<Rightarrow> Inl (ProductMissing (productId l))
      | Some r \<Rightarrow>
          (case order_lines h ps ls of
             Inl e \<Rightarrow> Inl e
           | Inr rest \<Rightarrow> Inr (snapshot (h r) l # rest)))"

definition order_total :: "order_line list \<Rightarrow> number" where
  "order_total ols =
     foldl (\<lambda>total l. number_add total (number_mul (ol_priceInINR l) (ol_quantity l)))
       (Num 0) ols"

definition createOrder ::
  "mem_storage \<Rightarrow> jsstring \<Rightarrow> date \<Rightarrow> insert_order \<Rightarrow> ref list \<Rightarrow>
   error + (order \<times> mem_storage)" where
  "createOrder st uuid now insertOrder ps =
     (case order_lines (heap st) ps (io_products insertOrder) of
        Inl e \<Rightarrow> Inl e
      | Inr orderProducts \<Rightarrow>
          let ord = \<lparr>o_id = uuid, o_products = orderProducts,
                     o_customer = io_customer insertOrder,
                     o_totalAmountINR = order_total orderProducts,
                     o_status = Pending, o_createdAt = now\<rparr>
          in Inr (ord, st\<lparr>orders := (orders st)(uuid \<mapsto> ord)\<rparr>))"

definition updateOrderStatus ::
  "mem_storage \<Rightarrow> jsstring \<Rightarrow> order_status \<Rightarrow> order option \<times> mem_storage" where
  "updateOrderStatus st i s =
     (case orders st i of
        None \<Rightarrow> (None, st)
      | Some ord \<Rightarrow>
          let ord' = ord\<lparr>o_status := s\<rparr>
          in (Some ord', st\<lparr>orders := (orders st)(i \<mapsto> ord')\<rparr>))"

text \<open>
  Category slugs. \<open>String.prototype.toLowerCase\<close> belongs to the JavaScript runtime and
  is an argument \<open>lc\<close> of everything that derives a slug. The two \<open>replace\<close> calls work on
  code units: \<open>/\s+/g\<close> turns every maximal run of white space into one hyphen,
  \<open>/[^a-z0-9-]/g\<close> deletes every unit outside the class.
\<close>

definition is_space :: "nat \<Rightarrow> bool" where
  "is_space c \<longleftrightarrow>
     (9 \<le> c \<and> c \<le> 13) \<or> c = 32 \<or> c = 160 \<or> c = 5760 \<or> (8192 \<le> c \<and> c \<le> 8202) \<or>
     c = 8232 \<or> c = 8233 \<or> c = 8239 \<or> c = 8287 \<or> c = 12288 \<or> c = 65279"

definition slug_char :: "nat \<Rightarrow> bool" where
  "slug_char c \<longleftrightarrow> (97 \<le> c \<and> c \<le> 122) \<or> (48 \<le> c \<and> c \<le> 57) \<or> c = 45"

function replace_spaces :: "jsstring \<Rightarrow> jsstring" where
  "replace_spaces [] = []"
| "replace_spaces (c # cs) =
     (if is_space c then 45 # replace_spaces (dropWhile is_space cs)
      else c # replace_spaces cs)"
  by pat_completeness auto
termination
  by (relation "measure length") (auto simp: length_dropWhile_le le_imp_less_Suc)

definition slugify :: "(jsstring \<Rightarrow> jsstring) \<Rightarrow> jsstring \<Rightarrow> jsstring" where
  "slugify lc name = filter slug_char (replace_spaces (lc name))"

text \<open>
  What the proofs use of \<open>toLowerCase\<close>: on a string of ASCII units it maps \<open>A\<close>-\<open>Z\<close> to
  \<open>a\<close>-\<open>z\<close> unit by unit and keeps every other unit. \<open>lower_units\<close> is one such function.
\<close>

definition lower_ascii :: "nat \<Rightarrow> nat" where
  "lower_ascii c = (if 65 \<le> c \<and> c \<le> 90 then c + 32 else c)"

definition ascii_toLowerCase :: "(jsstring \<Rightarrow> jsstring) \<Rightarrow> bool" where
  "ascii_toLowerCase lc \<longleftrightarrow> (\<forall>s. list_all (\<lambda>c. c < 128) s \<longrightarrow> lc s = map lower_ascii s)"

definition lower_units :: "jsstring \<Rightarrow> jsstring" where
  "lower_units s = map lower_ascii s"

definition getCategory :: "mem_storage \<Rightarrow> jsstring \<Rightarrow> category option" where
  "getCategory st i = categories st i"

definition createCategory ::
  "(jsstring \<Rightarrow> jsstring) \<Rightarrow> mem_storage \<Rightarrow> jsstring \<Rightarrow> date \<Rightarrow> insert_category \<Rightarrow>
   category \<times> mem_storage" where
  "createCategory lc st uuid now insertCategory =
     (let slug = slugify lc (ic_name insertCategory);
          cat = \<lparr>c_id = uuid, c_name = ic_name insertCategory, c_slug = slug,
                  c_description = ic_description insertCategory, c_createdAt = now\<rparr>
      in (cat, st\<lparr>categories := (categories st)(uuid \<mapsto> cat)\<rparr>))"

text \<open>
  \<open>updateCategory\<close>. The test \<open>updateData.name ? ... : category.slug\<close> is one of
  truthiness: an absent name and the empty string both keep the old slug.
\<close>

definition updateCategory ::
  "(jsstring \<Rightarrow> jsstring) \<Rightarrow> mem_storage \<Rightarrow> jsstring \<Rightarrow> update_category \<Rightarrow>
   category option \<times> mem_storage" where
  "updateCategory lc st i updateData =
     (case categories st i of
        None \<Rightarrow> (None, st)
      | Some cat \<Rightarrow>
          let cat' =
                cat\<lparr>c_name := (case uc_name updateData of None \<Rightarrow> c_name cat | Some n \<Rightarrow> n),
                    c_description :=
                      (case uc_description updateData of
                         None \<Rightarrow> c_description cat | Some d \<Rightarrow> d),
                    c_slug :=
                      (case uc_name updateData of
                         None \<Rightarrow> c_slug cat
                       | Some n \<Rightarrow> if n \<noteq> [] then slugify lc n else c_slug cat)\<rparr>
          in (Some cat', st\<lparr>categories := (categories st)(i \<mapsto> cat')\<rparr>))"

text \<open>\<open>Map.delete\<close> answers whether the key was there.\<close>

definition deleteCategory :: "mem_storage \<Rightarrow> jsstring \<Rightarrow> bool \<times> mem_storage" where
  "deleteCategory st i =
     (categories st i \<noteq> None, st\<lparr>categories := (categories st)(i := None)\<rparr>)"

definition getSiteSettings :: "mem_storage \<Rightarrow> site_settings" where
  "getSiteSettings st = siteSettings st"

text \<open>\<open>{...this.siteSettings, ...settings, updatedAt: new Date()}\<close>.\<close>

definition updateSiteSettings ::
  "mem_storage \<Rightarrow> date \<Rightarrow> update_site_settings \<Rightarrow> site_settings \<times> mem_storage" where
  "updateSiteSettings st now settings =
     (let s' = (siteSettings st)\<lparr>s_description := us_description settings,
                                  s_youtubeUrl := us_youtubeUrl settings,
                                  s_updatedAt := now\<rparr>
      in (s', st\<lparr>siteSettings := s'\<rparr>))"

section \<open>The change notifier (server/routes.ts)\<close>

datatype ready_state = CONNECTING | OPEN | CLOSING | CLOSED

datatype payload =
    OrderData order
  | CategoryData category
  | SettingsData site_settings
  | IdData jsstring

text \<open>\<open>JSON.stringify({ event, data })\<close>: the serialised message, kept as the pair.\<close>

datatype message = Message jsstring payload

text \<open>A socket of the \<open>ws\<close> library: its state, and what \<open>send\<close> was called with, in order.\<close>

record socket =
  readyState :: ready_state
  sent :: "message list"

text \<open>
  The server: the storage singleton, the set \<open>wsClients\<close> (a list in insertion order
  without repetition) and the sockets it refers to.
\<close>

record server =
  storage :: mem_storage
  wsClients :: "nat list"
  sockets :: "nat \<Rightarrow> socket"

definition send_if_open :: "message \<Rightarrow> (nat \<Rightarrow> socket) \<Rightarrow> nat \<Rightarrow> (nat \<Rightarrow> socket)" where
  "send_if_open m sk c =
     (if readyState (sk c) = OPEN then sk(c := (sk c)\<lparr>sent := sent (sk c) @ [m]\<rparr>) else sk)"

definition broadcastUpdate :: "server \<Rightarrow> jsstring \<Rightarrow> payload \<Rightarrow> server" where
  "broadcastUpdate sv event d =
     (let m = Message event d
      in sv\<lparr>sockets := foldl (send_if_open m) (sockets sv) (wsClients sv)\<rparr>)"

section \<open>Placing an order (POST /api/orders)\<close>

text \<open>
  \<open>insertOrderSchema.parse\<close> succeeds on a body of the right shape exactly when the
  following holds (\<open>z.number()\<close> refuses \<open>NaN\<close>, \<open>positive()\<close> is \<open>> 0\<close>).
\<close>

definition insertOrderSchema :: "insert_order \<Rightarrow> bool" where
  "insertOrderSchema b \<longleftrightarrow>
     list_all (\<lambda>l. number_less (Num 0) (quantity l)) (io_products b) \<and>
     1 \<le> length (io_products b) \<and>
     1 \<le> length (cu_name (io_customer b)) \<and>
     10 \<le> length (cu_phone (io_customer b)) \<and>
     1 \<le> length (cu_address (io_customer b))"

text \<open>\<open>products.find(p => p?.id === productId)\<close> on the array of looked-up products.\<close>

definition find_product ::
  "(ref \<Rightarrow> product) \<Rightarrow> ref option list \<Rightarrow> jsstring \<Rightarrow> ref option" where
  "find_product h ps i =
     (case List.find (\<lambda>p. case p of None \<Rightarrow> False | Some r \<Rightarrow> p_id (h r) = i) ps of
        Some (Some r) \<Rightarrow> Some r
      | _ \<Rightarrow> None)"

text \<open>The loop that checks stock: the first line that fails ends the request.\<close>

fun check_stock ::
  "(ref \<Rightarrow> product) \<Rightarrow> ref option list \<Rightarrow> insert_line list \<Rightarrow> error option" where
  "check_stock h ps [] = None"
| "check_stock h ps (l # ls) =
     (case find_product h ps (productId l) of
        None \<Rightarrow> Some (InsufficientStock None)
      | Some r \<Rightarrow>
          if number_less (p_stock (h r)) (quantity l)
          then Some (InsufficientStock (Some (p_name (h r))))
          else check_stock h ps ls)"

text \<open>
  The loop that decrements stock. \<open>product.stock\<close> is read from the object as it is when
  the line is reached, and \<open>updateProductStock\<close> is called with \<open>product.id\<close>.
\<close>

fun decrement_stock ::
  "mem_storage \<Rightarrow> ref option list \<Rightarrow> insert_line list \<Rightarrow> mem_storage" where
  "decrement_stock st ps [] = st"
| "decrement_stock st ps (l # ls) =
     (case find_product (heap st) ps (productId l) of
        None \<Rightarrow> decrement_stock st ps ls
      | Some r \<Rightarrow>
          decrement_stock
            (snd (updateProductStock st (p_id (heap st r))
                    (number_sub (p_stock (heap st r)) (quantity l))))
            ps ls)"

datatype 'a response = Success 'a | Failure error

definition place_order ::
  "server \<Rightarrow> jsstring \<Rightarrow> date \<Rightarrow> insert_order \<Rightarrow> order response \<times> server" where
  "place_order sv uuid now body =
     (if \<not> insertOrderSchema body then (Failure ValidationFailed, sv)
      else
        let st = storage sv;
            productIds = map productId (io_products body);
            ps = map (getProduct st) productIds
        in if list_ex (\<lambda>p. p = None) ps then (Failure NotFound, sv)
           else
             (case check_stock (heap st) ps (io_products body) of
                Some e \<Rightarrow> (Failure e, sv)
              | None \<Rightarrow>
                  (case createOrder st uuid now body (List.map_filter (\<lambda>p. p) ps) of
                     Inl e \<Rightarrow> (Failure e, sv)
                   | Inr (ord, st1) \<Rightarrow>
                       let st2 = decrement_stock st1 ps (io_products body)
                       in (Success ord,
                           broadcastUpdate (sv\<lparr>storage := st2\<rparr>)
                             (js ''order:created'') (OrderData ord)))))"

section \<open>Admin routes and the socket registry (server/routes.ts)\<close>

text \<open>
  \<open>requireAdmin\<close> runs before every admin handler; \<open>authenticated\<close> is what
  \<open>req.isAuthenticated()\<close> answers.
\<close>

definition requireAdmin ::
  "bool \<Rightarrow> server \<Rightarrow> (server \<Rightarrow> 'a response \<times> server) \<Rightarrow> 'a response \<times> server" where
  "requireAdmin authenticated sv handler =
     (if \<not> authenticated then (Failure Unauthorized, sv) else handler sv)"

text \<open>
  \<open>["pending", "completed", "cancelled"].includes(status)\<close>, and the status a string of
  the list stands for. (A body whose \<open>status\<close> is not a string fails like a string
  outside the list.)
\<close>

definition parse_status :: "jsstring \<Rightarrow> order_status option" where
  "parse_status s =
     (if s = js ''pending'' then Some Pending
      else if s = js ''completed'' then Some Completed
      else if s = js ''cancelled'' then Some Cancelled
      else None)"

definition put_order_status ::
  "server \<Rightarrow> bool \<Rightarrow> jsstring \<Rightarrow> jsstring \<Rightarrow> order response \<times> server" where
  "put_order_status sv authenticated i status =
     requireAdmin authenticated sv (\<lambda>sv.
       case parse_status status of
         None \<Rightarrow> (Failure InvalidStatus, sv)
       | Some s \<Rightarrow>
           (case updateOrderStatus (storage sv) i s of
              (None, st') \<Rightarrow> (Failure OrderNotFound, sv\<lparr>storage := st'\<rparr>)
            | (Some ord, st') \<Rightarrow>
                (Success ord,
                 broadcastUpdate (sv\<lparr>storage := st'\<rparr>) (js ''order:updated'') (OrderData ord))))"

text \<open>\<open>insertCategorySchema\<close>: the name is not empty (the description has a default).\<close>

definition insertCategorySchema :: "insert_category \<Rightarrow> bool" where
  "insertCategorySchema b \<longleftrightarrow> 1 \<le> length (ic_name b)"

definition post_category ::
  "(jsstring \<Rightarrow> jsstring) \<Rightarrow> server \<Rightarrow> bool \<Rightarrow> jsstring \<Rightarrow> date \<Rightarrow> insert_category \<Rightarrow>
   category response \<times> server" where
  "post_category lc sv authenticated uuid now body =
     requireAdmin authenticated sv (\<lambda>sv.
       if \<not> insertCategorySchema body then (Failure ValidationFailed, sv)
       else
         (case createCategory lc (storage sv) uuid now body of
            (cat, st') \<Rightarrow>
              (Success cat,
               broadcastUpdate (sv\<lparr>storage := st'\<rparr>) (js ''category:created'')
                 (CategoryData cat))))"

definition put_category ::
  "(jsstring \<Rightarrow> jsstring) \<Rightarrow> server \<Rightarrow> bool \<Rightarrow> jsstring \<Rightarrow> insert_category \<Rightarrow>
   category response \<times> server" where
  "put_category lc sv authenticated i body =
     requireAdmin authenticated sv (\<lambda>sv.
       if \<not> insertCategorySchema body then (Failure ValidationFailed, sv)
       else
         (case updateCategory lc (storage sv) i
                 \<lparr>uc_name = Some (ic_name body), uc_description = Some (ic_description body)\<rparr> of
            (None, st') \<Rightarrow> (Failure CategoryNotFound, sv\<lparr>storage := st'\<rparr>)
          | (Some cat, st') \<Rightarrow>
              (Success cat,
               broadcastUpdate (sv\<lparr>storage := st'\<rparr>) (js ''category:updated'')
                 (CategoryData cat))))"

definition delete_category ::
  "server \<Rightarrow> bool \<Rightarrow> jsstring \<Rightarrow> unit response \<times> server" where
  "delete_category sv authenticated i =
     requireAdmin authenticated sv (\<lambda>sv.
       case deleteCategory (storage sv) i of
         (False, st') \<Rightarrow> (Failure CategoryNotFound, sv\<lparr>storage := st'\<rparr>)
       | (True, st') \<Rightarrow>
           (Success (),
            broadcastUpdate (sv\<lparr>storage := st'\<rparr>) (js ''category:deleted'') (IdData i)))"

text \<open>
  The registry: \<open>wss.on("connection")\<close> adds the socket to the set, its \<open>close\<close> and
  \<open>error\<close> events delete it.
\<close>

definition on_connection :: "server \<Rightarrow> nat \<Rightarrow> server" where
  "on_connection sv ws =
     sv\<lparr>wsClients := (if ws \<in> set (wsClients sv) then wsClients sv else wsClients sv @ [ws])\<rparr>"

definition on_close :: "server \<Rightarrow> nat \<Rightarrow> server" where
  "on_close sv ws = sv\<lparr>wsClients := removeAll ws (wsClients sv)\<rparr>"

definition on_error :: "server \<Rightarrow> nat \<Rightarrow> server" where
  "on_error sv ws = sv\<lparr>wsClients := removeAll ws (wsClients sv)\<rparr>"

text \<open>The stock of the product stored under an id, if there is one.\<close>

definition stock_of :: "server \<Rightarrow> jsstring \<Rightarrow> number option" where
  "stock_of sv i = map_option (\<lambda>r. p_stock (heap (storage sv) r)) (getProduct (storage sv) i)"

section \<open>Concrete data for the scenarios\<close>

definition a_customer :: customer where
  "a_customer = \<lparr>cu_name = js ''Asha'', cu_phone = js ''9876543210'',
                  cu_altPhone = None, cu_address = js ''12 Forest Road''\<rparr>"

definition a_product :: "int \<Rightarrow> bool \<Rightarrow> product" where
  "a_product n av =
     \<lparr>p_id = js ''P'', p_name = js ''Parrot'', p_categoryId = js ''c1'', p_type = Pet,
      p_species = Some (js ''bird''), p_images = [], p_description = js ''A parrot'',
      p_priceInINR = Num 500, p_stock = Num (of_int n), p_available = av,
      p_createdAt = 1\<rparr>"

definition default_settings :: site_settings where
  "default_settings = \<lparr>s_id = js ''default'', s_description = js ''Welcome'',
                        s_youtubeUrl = js ''https://www.youtube.com/embed/x'', s_updatedAt = 0\<rparr>"

text \<open>A storage whose only product is \<open>P\<close>, with stock \<open>n\<close>.\<close>

definition a_storage :: "int \<Rightarrow> bool \<Rightarrow> mem_storage" where
  "a_storage n av =
     \<lparr>categories = Map.empty, products = [js ''P'' \<mapsto> 0],
      heap = (\<lambda>_. a_product n av), next_ref = 1, orders = Map.empty,
      siteSettings = default_settings\<rparr>"

definition a_server :: "int \<Rightarrow> bool \<Rightarrow> server" where
  "a_server n av =
     \<lparr>storage = a_storage n av, wsClients = [],
      sockets = (\<lambda>_. \<lparr>readyState = CLOSED, sent = []\<rparr>)\<rparr>"

definition line :: "string \<Rightarrow> int \<Rightarrow> insert_line" where
  "line i q = \<lparr>productId = js i, quantity = Num (of_int q)\<rparr>"

definition request :: "insert_line list \<Rightarrow> insert_order" where
  "request ls = \<lparr>io_products = ls, io_customer = a_customer\<rparr>"

definition an_order :: "order_status \<Rightarrow> order" where
  "an_order s =
     \<lparr>o_id = js ''o1'',
      o_products = [\<lparr>ol_productId = js ''P'', ol_name = js ''Parrot'',
                      ol_priceInINR = Num 500, ol_quantity = Num 2\<rparr>],
      o_customer = a_customer, o_totalAmountINR = Num 1000, o_status = s,
      o_createdAt = 5\<rparr>"

text \<open>A server that holds the order \<open>o1\<close> in the given status.\<close>

definition order_server :: "order_status \<Rightarrow> server" where
  "order_server s =
     (a_server 0 True)\<lparr>storage := (a_storage 0 True)\<lparr>orders := [js ''o1'' \<mapsto> an_order s]\<rparr>\<rparr>"

text \<open>The order of two lines for \<open>P\<close> at the price 500, and an edit of name and price.\<close>

definition two_line_order :: order where
  "two_line_order =
     \<lparr>o_id = js ''o1'',
      o_products = [\<lparr>ol_productId = js ''P'', ol_name = js ''Parrot'',
                      ol_priceInINR = Num 500, ol_quantity = Num 2\<rparr>,
                    \<lparr>ol_productId = js ''P'', ol_name = js ''Parrot'',
                      ol_priceInINR = Num 500, ol_quantity = Num 1\<rparr>],
      o_customer = a_customer, o_totalAmountINR = Num 1500,
      o_status = Pending, o_createdAt = 7\<rparr>"

definition price_update :: update_product where
  "price_update =
     \<lparr>up_name = Some (js ''Macaw''), up_categoryId = None, up_type = None,
      up_species = None, up_description = None, up_priceInINR = Some (Num 900),
      up_stock = None, up_available = None\<rparr>"

text \<open>The same storage with the price 3, and the order of one large line on it.\<close>

definition cheap_storage :: mem_storage where
  "cheap_storage =
     (a_storage 1 True)\<lparr>heap := (\<lambda>_. (a_product 1 True)\<lparr>p_priceInINR := Num 3\<rparr>)\<rparr>"

definition large_order :: order where
  "large_order =
     \<lparr>o_id = js ''o1'',
      o_products = [\<lparr>ol_productId = js ''P'', ol_name = js ''Parrot'',
                      ol_priceInINR = Num 3, ol_quantity = Num 3002399751580331\<rparr>],
      o_customer = a_customer, o_totalAmountINR = Num 9007199254740992,
      o_status = Pending, o_createdAt = 7\<rparr>"

definition a_category :: category where
  "a_category = \<lparr>c_id = js ''c1'', c_name = js ''Birds'', c_slug = js ''birds'',
                  c_description = js ''All birds'', c_createdAt = 1\<rparr>"

definition category_server :: server where
  "category_server =
     (a_server 2 True)\<lparr>storage := (a_storage 2 True)\<lparr>categories := [js ''c1'' \<mapsto> a_category]\<rparr>\<rparr>"

text \<open>
  A server with the product \<open>P\<close> (stock 2) and three registered sockets, two of them
  open and the third closed.
\<close>

definition a_socket :: "ready_state \<Rightarrow> socket" where
  "a_socket rs = \<lparr>readyState = rs, sent = []\<rparr>"

definition live_server :: server where
  "live_server =
     \<lparr>storage = a_storage 2 True, wsClients = [1, 2, 3],
      sockets = (\<lambda>_. a_socket CLOSED)(1 := a_socket OPEN, 2 := a_socket OPEN)\<rparr>"

section \<open>Notions of the statements\<close>

text \<open>
  The storage keeps every product under its own id: \<open>createProduct\<close> stores the new object
  under the id it gives it, and no operation assigns to \<open>id\<close>.
\<close>

definition ids_agree :: "mem_storage \<Rightarrow> bool" where
  "ids_agree st \<longleftrightarrow> (\<forall>i r. products st i = Some r \<longrightarrow> p_id (heap st r) = i)"

text \<open>
  The same with every stored reference below \<open>next_ref\<close>, that is, allocated: the
  invariant that the operations of the storage keep.
\<close>

definition storage_ok :: "mem_storage \<Rightarrow> bool" where
  "storage_ok st \<longleftrightarrow>
     (\<forall>i r. products st i = Some r \<longrightarrow> p_id (heap st r) = i \<and> r < next_ref st)"

text \<open>
  The product a line asks for, and whether its stock covers the line's quantity: the
  test of the route, \<open>product.stock < orderProduct.quantity\<close>, is false.
\<close>

definition resolved :: "mem_storage \<Rightarrow> insert_line \<Rightarrow> product" where
  "resolved st l = heap st (the (products st (productId l)))"

definition sufficient :: "mem_storage \<Rightarrow> insert_line \<Rightarrow> bool" where
  "sufficient st l \<longleftrightarrow>
     (case products st (productId l) of
        None \<Rightarrow> False
      | Some r \<Rightarrow> \<not> number_less (p_stock (heap st r)) (quantity l))"

text \<open>
  What the lines of a request ask of one product, line by line, and a number with these
  quantities subtracted from it in turn.
\<close>

definition ordered_quantities :: "insert_line list \<Rightarrow> jsstring \<Rightarrow> number list" where
  "ordered_quantities ls i = map quantity (filter (\<lambda>l. productId l = i) ls)"

definition subtract_all :: "number \<Rightarrow> number list \<Rightarrow> number" where
  "subtract_all s qs = foldl number_sub s qs"

text \<open>
  Counts: the numbers that are natural numbers, of which the data model of the
  specification speaks. \<open>value_of\<close> is the value of a finite number, \<open>exact_total\<close> the
  sum of price times quantity over the lines of an order, computed without rounding.
\<close>

definition is_count :: "number \<Rightarrow> bool" where
  "is_count x \<longleftrightarrow> (case x of Num r \<Rightarrow> 0 \<le> r \<and> of_int \<lfloor>r\<rfloor> = r | _ \<Rightarrow> False)"

fun value_of :: "number \<Rightarrow> rat" where
  "value_of (Num r) = r"
| "value_of x = 0"

definition exact_total :: "order_line list \<Rightarrow> rat" where
  "exact_total ols = (\<Sum>l\<leftarrow>ols. value_of (ol_priceInINR l) * value_of (ol_quantity l))"

definition exact_sum :: "number list \<Rightarrow> rat" where
  "exact_sum qs = (\<Sum>q\<leftarrow>qs. value_of q)"

definition lines_for :: "mem_storage \<Rightarrow> ref \<Rightarrow> insert_line list \<Rightarrow> insert_line list" where
  "lines_for st r ls = filter (\<lambda>l. products st (productId l) = Some r) ls"

text \<open>The order that a request yields when each of its lines resolves.\<close>

definition new_order :: "mem_storage \<Rightarrow> jsstring \<Rightarrow> date \<Rightarrow> insert_order \<Rightarrow> order" where
  "new_order st uuid now body =
     \<lparr>o_id = uuid,
      o_products = map (\<lambda>l. snapshot (resolved st l) l) (io_products body),
      o_customer = io_customer body,
      o_totalAmountINR = order_total (map (\<lambda>l. snapshot (resolved st l) l) (io_products body)),
      o_status = Pending, o_createdAt = now\<rparr>"

text \<open>The message of the order \<open>o1\<close> for two of \<open>P\<close>, placed at time 7.\<close>

definition created :: message where
  "created = Message (js ''order:created'')
     (OrderData (new_order (a_storage 2 True) (js ''o1'') 7 (request [line ''P'' 2])))"

text \<open>The same server with the \<open>available\<close> flag of every product object set by \<open>f\<close>.\<close>

definition with_available :: "(ref \<Rightarrow> bool) \<Rightarrow> server \<Rightarrow> server" where
  "with_available f sv =
     sv\<lparr>storage := (storage sv)
          \<lparr>heap := (\<lambda>r. (heap (storage sv) r)\<lparr>p_available := f r\<rparr>)\<rparr>\<rparr>"

text \<open>The string of a status in the schema's enum.\<close>

fun status_name :: "order_status \<Rightarrow> jsstring" where
  "status_name Pending = js ''pending''"
| "status_name Completed = js ''completed''"
| "status_name Cancelled = js ''cancelled''"

section \<open>Lemmas on numbers\<close>

lemma floor_numeral_fraction [simp]:
  "\<lfloor>(numeral a :: rat) / numeral b\<rfloor> = numeral a div numeral b"
  by (metis floor_divide_of_int_eq of_int_numeral)

lemmas number_eval = number_sub_def round_double_def round_pos_def scale_down.simps
  scale_up.simps round_half_even_def Let_def

lemma round_half_even_int: "x \<in> \<int> \<Longrightarrow> of_int (round_half_even x) = x"
  by (auto simp: round_half_even_def Ints_def)

lemma scale_up_spec:
  "scale_up x e = (y, e') \<Longrightarrow> e' \<le> e \<and> y = x * 2 ^ nat (e - e')"
proof (induction x e rule: scale_up.induct)
  case (1 x e)
  show ?case
  proof (cases "x < 4503599627370496 \<and> - 1074 < e")
    case True
    with "1.prems" have "scale_up (x * 2) (e - 1) = (y, e')"
      by (simp add: scale_up.simps [of x e])
    with "1.IH" True have le: "e' \<le> e - 1" and y: "y = x * 2 * 2 ^ nat (e - 1 - e')"
      by simp_all
    from le have "nat (e - e') = Suc (nat (e - 1 - e'))"
      by simp
    with le y show ?thesis by simp
  next
    case False
    with "1.prems" show ?thesis
      by (simp add: scale_up.simps [of x e])
  qed
qed

text \<open>An integer of magnitude up to \<open>2^53\<close> is a double: rounding keeps it.\<close>

lemma round_pos_int:
  assumes "x \<in> \<int>" and "0 < x" and "x \<le> 9007199254740992"
  shows "round_pos x = Num x"
proof (cases "x = 9007199254740992")
  case True
  then show ?thesis
    by (simp add: round_pos_def scale_down.simps round_half_even_def)
next
  case False
  with assms have lt: "\<not> 9007199254740992 \<le> x" by simp
  obtain y e where s: "scale_up x 0 = (y, e)"
    by (cases "scale_up x 0")
  from scale_up_spec [OF s] have e: "e \<le> 0" and y: "y = x * 2 ^ nat (- e)"
    by simp_all
  from assms(1) y have "y \<in> \<int>"
    by (simp add: Ints_mult)
  then have r: "of_int (round_half_even y) = y"
    by (rule round_half_even_int)
  have v: "y * (if 0 \<le> e then 2 ^ nat e else 1 / 2 ^ nat (- e)) = x"
    using e y by (cases "e = 0") simp_all
  have "x < 2 ^ 1024"
    using assms(3) by (rule order_le_less_trans) simp
  then show ?thesis
    using lt s by (simp add: round_pos_def r v)
qed

lemma round_double_int:
  assumes "x \<in> \<int>" and "\<bar>x\<bar> \<le> 9007199254740992"
  shows "round_double x = Num x"
proof -
  consider "x = 0" | "0 < x" | "x < 0" by linarith
  then show ?thesis
  proof cases
    case 1
    then show ?thesis by (simp add: round_double_def)
  next
    case 2
    with assms show ?thesis by (simp add: round_double_def round_pos_int)
  next
    case 3
    with assms have "round_pos (- x) = Num (- x)"
      by (intro round_pos_int) simp_all
    with 3 show ?thesis by (simp add: round_double_def)
  qed
qed

lemma is_count_iff: "is_count x \<longleftrightarrow> (\<exists>r. x = Num r \<and> r \<in> \<int> \<and> 0 \<le> r)"
proof (cases x)
  case (Num r)
  have "of_int \<lfloor>r\<rfloor> = r \<longleftrightarrow> r \<in> \<int>"
    by (metis Ints_of_int of_int_floor)
  with Num show ?thesis by (auto simp: is_count_def)
qed (simp_all add: is_count_def)

lemma exact_sum_nonneg: "list_all is_count qs \<Longrightarrow> 0 \<le> exact_sum qs"
  by (induction qs) (auto simp: exact_sum_def is_count_iff)

lemma subtract_all_exact:
  assumes "is_count s" and "list_all is_count qs"
    and "exact_sum qs \<le> value_of s" and "value_of s \<le> 9007199254740992"
  shows "subtract_all s qs = Num (value_of s - exact_sum qs)"
  using assms
proof (induction qs arbitrary: s)
  case Nil
  then show ?case by (auto simp: subtract_all_def exact_sum_def is_count_iff)
next
  case (Cons q qs)
  from Cons.prems obtain a b where s: "s = Num a" and a: "a \<in> \<int>" "0 \<le> a"
    and q: "q = Num b" and b: "b \<in> \<int>" "0 \<le> b"
    by (auto simp: is_count_iff)
  from Cons.prems have qs: "list_all is_count qs" by simp
  from Cons.prems s q have le: "b + exact_sum qs \<le> a" and up: "a \<le> 9007199254740992"
    by (simp_all add: exact_sum_def)
  from exact_sum_nonneg [OF qs] le have ba: "b \<le> a" by simp
  with a b up have r: "number_sub s q = Num (a - b)"
    by (simp add: s q number_sub_def round_double_int)
  have c: "is_count (Num (a - b))"
    using a b ba by (auto simp: is_count_iff)
  have "subtract_all (Num (a - b)) qs = Num (value_of (Num (a - b)) - exact_sum qs)"
    using c qs le up b by (intro Cons.IH) simp_all
  then show ?case
    using r by (simp add: subtract_all_def s q exact_sum_def algebra_simps)
qed

lemma exact_total_nonneg:
  "list_all (\<lambda>l. is_count (ol_priceInINR l) \<and> is_count (ol_quantity l)) ols \<Longrightarrow>
   0 \<le> exact_total ols"
  by (induction ols) (auto simp: exact_total_def is_count_iff)

lemma order_total_map:
  "order_total ols
     = foldl number_add (Num 0) (map (\<lambda>l. number_mul (ol_priceInINR l) (ol_quantity l)) ols)"
  by (simp add: order_total_def foldl_map)

lemma order_total_exact:
  assumes "list_all (\<lambda>l. is_count (ol_priceInINR l) \<and> is_count (ol_quantity l)) ols"
    and "exact_total ols \<le> 9007199254740992"
  shows "order_total ols = Num (exact_total ols)"
proof -
  have "foldl (\<lambda>total l. number_add total (number_mul (ol_priceInINR l) (ol_quantity l)))
          (Num a) ols = Num (a + exact_total ols)"
    if "list_all (\<lambda>l. is_count (ol_priceInINR l) \<and> is_count (ol_quantity l)) ols"
      and "a \<in> \<int>" and "0 \<le> a" and "a + exact_total ols \<le> 9007199254740992" for a
    using that
  proof (induction ols arbitrary: a)
    case Nil
    then show ?case by (simp add: exact_total_def)
  next
    case (Cons l ols)
    from Cons.prems obtain p q where p: "ol_priceInINR l = Num p" "p \<in> \<int>" "0 \<le> p"
      and q: "ol_quantity l = Num q" "q \<in> \<int>" "0 \<le> q"
      by (auto simp: is_count_iff)
    from Cons.prems have rest: "list_all (\<lambda>l. is_count (ol_priceInINR l) \<and>
        is_count (ol_quantity l)) ols"
      by simp
    from Cons.prems p q have up: "a + p * q + exact_total ols \<le> 9007199254740992"
      by (simp add: exact_total_def algebra_simps)
    have pq: "p * q \<in> \<int>" "0 \<le> p * q"
      using p q by (simp_all add: Ints_mult)
    from exact_total_nonneg [OF rest] up Cons.prems(3) pq
    have b1: "p * q \<le> 9007199254740992" and b2: "a + p * q \<le> 9007199254740992"
      by simp_all
    have m: "round_double (p * q) = Num (p * q)"
      using pq b1 by (simp add: round_double_int)
    have s: "round_double (a + p * q) = Num (a + p * q)"
      using pq b2 Cons.prems(2,3) by (simp add: round_double_int Ints_add)
    have "foldl (\<lambda>total l. number_add total (number_mul (ol_priceInINR l) (ol_quantity l)))
            (Num (a + p * q)) ols = Num (a + p * q + exact_total ols)"
      using rest pq Cons.prems(2,3) up by (intro Cons.IH) (simp_all add: Ints_add)
    then show ?case
      by (simp add: m s p q exact_total_def algebra_simps)
  qed
  from this [of 0] assms show ?thesis
    by (simp add: order_total_def)
qed

section \<open>Lemmas on the loops of order placement\<close>

lemma find_product_map:
  assumes "\<forall>j r. m j = Some r \<longrightarrow> p_id (h r) = j"
    and "\<forall>j\<in>set ids. m j \<noteq> None" and "i \<in> set ids"
  shows "find_product h (map m ids) i = m i"
proof -
  have "List.find (\<lambda>p. case p of None \<Rightarrow> False | Some r \<Rightarrow> p_id (h r) = i) (map m ids)
          = Some (m i)"
    using assms(2,3)
  proof (induction ids)
    case Nil
    then show ?case by simp
  next
    case (Cons j js)
    from Cons.prems obtain r where r: "m j = Some r" by auto
    with assms(1) have "p_id (h r) = j" by blast
    with r Cons show ?case by auto
  qed
  moreover from assms(2,3) obtain r where "m i = Some r" by auto
  ultimately show ?thesis by (simp add: find_product_def)
qed

lemma find_refs:
  assumes "\<forall>j r. m j = Some r \<longrightarrow> p_id (h r) = j"
    and "\<forall>j\<in>set ids. m j \<noteq> None" and "i \<in> set ids"
  shows "List.find (\<lambda>r. p_id (h r) = i) (List.map_filter (\<lambda>p. p) (map m ids)) = m i"
  using assms(2,3)
proof (induction ids)
  case Nil
  then show ?case by simp
next
  case (Cons j js)
  from Cons.prems obtain r where r: "m j = Some r" by auto
  with assms(1) have "p_id (h r) = j" by blast
  with r Cons show ?case by (auto simp: List.map_filter_simps)
qed

lemma check_stock_passes:
  assumes "\<forall>j r. m j = Some r \<longrightarrow> p_id (h r) = j"
    and "\<forall>j\<in>set ids. m j \<noteq> None"
    and "productId ` set ls \<subseteq> set ids"
    and "\<forall>l\<in>set ls. \<not> number_less (p_stock (h (the (m (productId l))))) (quantity l)"
  shows "check_stock h (map m ids) ls = None"
  using assms(3,4)
proof (induction ls)
  case Nil
  then show ?case by simp
next
  case (Cons l ls)
  then have i: "productId l \<in> set ids" by simp
  with assms(2) obtain r where r: "m (productId l) = Some r" by auto
  from Cons r show ?case
    by (simp add: find_product_map [OF assms(1,2) i])
qed

lemma check_stock_first_failure:
  assumes "\<forall>j r. m j = Some r \<longrightarrow> p_id (h r) = j"
    and "\<forall>j\<in>set ids. m j \<noteq> None"
    and "productId ` set (pre @ l # post) \<subseteq> set ids"
    and "\<forall>l'\<in>set pre. \<not> number_less (p_stock (h (the (m (productId l'))))) (quantity l')"
    and "number_less (p_stock (h (the (m (productId l))))) (quantity l)"
  shows "check_stock h (map m ids) (pre @ l # post)
           = Some (InsufficientStock (Some (p_name (h (the (m (productId l)))))))"
  using assms(3,4)
proof (induction pre)
  case Nil
  then have i: "productId l \<in> set ids" by simp
  with assms(2) obtain r where r: "m (productId l) = Some r" by auto
  with assms(5) show ?case
    by (simp add: find_product_map [OF assms(1,2) i])
next
  case (Cons a pre)
  then have i: "productId a \<in> set ids" by simp
  with assms(2) obtain r where r: "m (productId a) = Some r" by auto
  from Cons r show ?case
    by (simp add: find_product_map [OF assms(1,2) i])
qed

lemma order_lines_resolved:
  assumes "\<forall>j r. m j = Some r \<longrightarrow> p_id (h r) = j"
    and "\<forall>j\<in>set ids. m j \<noteq> None"
    and "productId ` set ls \<subseteq> set ids"
  shows "order_lines h (List.map_filter (\<lambda>p. p) (map m ids)) ls
           = Inr (map (\<lambda>l. snapshot (h (the (m (productId l)))) l) ls)"
  using assms(3)
proof (induction ls)
  case Nil
  then show ?case by simp
next
  case (Cons l ls)
  then have i: "productId l \<in> set ids" by simp
  with assms(2) obtain r where r: "m (productId l) = Some r" by auto
  from Cons r show ?case
    by (simp add: find_refs [OF assms(1,2) i])
qed

lemma updateProductStock_known:
  "products st i = Some r \<Longrightarrow>
   snd (updateProductStock st i n) = st\<lparr>heap := (heap st)(r := (heap st r)\<lparr>p_stock := n\<rparr>)\<rparr>"
  by (simp add: updateProductStock_def map_upd_triv)

lemma decrement_stock_result:
  assumes "ids_agree st"
    and "\<forall>j\<in>set ids. products st j \<noteq> None"
    and "productId ` set ls \<subseteq> set ids"
  shows "decrement_stock st (map (products st) ids) ls
           = st\<lparr>heap := (\<lambda>r. (heap st r)\<lparr>p_stock :=
                   subtract_all (p_stock (heap st r)) (map quantity (lines_for st r ls))\<rparr>)\<rparr>"
  using assms
proof (induction ls arbitrary: st)
  case Nil
  then show ?case by (simp add: lines_for_def subtract_all_def)
next
  case (Cons l ls)
  let ?i = "productId l"
  from Cons.prems have i: "?i \<in> set ids" by simp
  with Cons.prems obtain r where r: "products st ?i = Some r" by auto
  from Cons.prems(1) have ag: "\<forall>j r. products st j = Some r \<longrightarrow> p_id (heap st r) = j"
    by (simp add: ids_agree_def)
  with r have pid: "p_id (heap st r) = ?i" by blast
  have f: "find_product (heap st) (map (products st) ids) ?i = Some r"
    using find_product_map [OF ag Cons.prems(2) i] r by simp
  let ?st1 = "st\<lparr>heap := (heap st)(r := (heap st r)\<lparr>p_stock :=
      number_sub (p_stock (heap st r)) (quantity l)\<rparr>)\<rparr>"
  have step: "decrement_stock st (map (products st) ids) (l # ls)
                = decrement_stock ?st1 (map (products ?st1) ids) ls"
    using f pid r by (simp add: updateProductStock_known)
  have ag1: "ids_agree ?st1"
    using ag by (simp add: ids_agree_def)
  have "decrement_stock ?st1 (map (products ?st1) ids) ls
          = ?st1\<lparr>heap := (\<lambda>r'. (heap ?st1 r')\<lparr>p_stock :=
                   subtract_all (p_stock (heap ?st1 r')) (map quantity (lines_for ?st1 r' ls))\<rparr>)\<rparr>"
    using Cons.prems by (intro Cons.IH [OF ag1]) simp_all
  also have "\<dots> = st\<lparr>heap := (\<lambda>r'. (heap st r')\<lparr>p_stock :=
                   subtract_all (p_stock (heap st r')) (map quantity (lines_for st r' (l # ls)))\<rparr>)\<rparr>"
    using r by (auto simp: lines_for_def subtract_all_def fun_eq_iff)
  finally show ?case using step by simp
qed

lemma lines_for_key:
  assumes "ids_agree st" and "products st i = Some r"
  shows "lines_for st r ls = filter (\<lambda>l. productId l = i) ls"
proof -
  have "products st j = Some r \<longleftrightarrow> j = i" for j
    using assms by (auto simp: ids_agree_def)
  then show ?thesis by (simp add: lines_for_def)
qed

lemma place_order_accepts:
  assumes ag: "ids_agree (storage sv)"
    and valid: "insertOrderSchema body"
    and suff: "list_all (sufficient (storage sv)) (io_products body)"
  shows "place_order sv uuid now body =
           (Success (new_order (storage sv) uuid now body),
            broadcastUpdate
              (sv\<lparr>storage := (storage sv)
                 \<lparr>orders := (orders (storage sv))(uuid \<mapsto> new_order (storage sv) uuid now body),
                  heap := (\<lambda>r. (heap (storage sv) r)\<lparr>p_stock :=
                     subtract_all (p_stock (heap (storage sv) r))
                       (map quantity (lines_for (storage sv) r (io_products body)))\<rparr>)\<rparr>\<rparr>)
              (js ''order:created'') (OrderData (new_order (storage sv) uuid now body)))"
proof -
  define st where "st = storage sv"
  define ls where "ls = io_products body"
  define ids where "ids = map productId ls"
  define ord where "ord = new_order st uuid now body"
  define st1 where "st1 = st\<lparr>orders := (orders st)(uuid \<mapsto> ord)\<rparr>"
  have m: "\<forall>j r. products st j = Some r \<longrightarrow> p_id (heap st r) = j"
    using ag by (simp add: ids_agree_def st_def)
  have ex: "\<forall>j\<in>set ids. products st j \<noteq> None"
    using suff by (auto simp: ids_def ls_def st_def list_all_iff sufficient_def split: option.splits)
  have sub: "productId ` set ls \<subseteq> set ids"
    by (simp add: ids_def)
  have st: "\<forall>l\<in>set ls.
      \<not> number_less (p_stock (heap st (the (products st (productId l))))) (quantity l)"
    using suff by (auto simp: ls_def st_def list_all_iff sufficient_def split: option.splits)
  have gp: "getProduct = products"
    by (simp add: fun_eq_iff getProduct_def)
  have no_none: "\<not> list_ex (\<lambda>p. p = None) (map (products st) ids)"
    using ex by (auto simp: list_ex_iff)
  have chk: "check_stock (heap st) (map (products st) ids) ls = None"
    by (rule check_stock_passes [OF m ex sub st])
  have ol: "order_lines (heap st) (List.map_filter (\<lambda>p. p) (map (products st) ids)) ls
              = Inr (map (\<lambda>l. snapshot (resolved st l) l) ls)"
    using order_lines_resolved [OF m ex sub] by (simp add: resolved_def)
  have co: "createOrder st uuid now body (List.map_filter (\<lambda>p. p) (map (products st) ids))
              = Inr (ord, st1)"
    using ol by (simp add: createOrder_def ls_def [symmetric] ord_def new_order_def st1_def Let_def)
  have ag1: "ids_agree st1"
    using ag by (simp add: ids_agree_def st1_def st_def)
  have ex1: "\<forall>j\<in>set ids. products st1 j \<noteq> None"
    using ex by (simp add: st1_def)
  have dec: "decrement_stock st1 (map (products st) ids) ls
               = st1\<lparr>heap := (\<lambda>r. (heap st1 r)\<lparr>p_stock :=
                   subtract_all (p_stock (heap st1 r)) (map quantity (lines_for st1 r ls))\<rparr>)\<rparr>"
    using decrement_stock_result [OF ag1 ex1 sub] by (simp add: st1_def)
  have "place_order sv uuid now body =
          (Success ord,
           broadcastUpdate (sv\<lparr>storage := decrement_stock st1 (map (products st) ids) ls\<rparr>)
             (js ''order:created'') (OrderData ord))"
    using valid no_none chk co
    by (simp add: place_order_def gp st_def [symmetric] ls_def [symmetric]
        ids_def [symmetric] Let_def)
  then have "place_order sv uuid now body =
          (Success ord,
           broadcastUpdate
             (sv\<lparr>storage := st1\<lparr>heap := (\<lambda>r. (heap st1 r)\<lparr>p_stock :=
                   subtract_all (p_stock (heap st1 r)) (map quantity (lines_for st1 r ls))\<rparr>)\<rparr>\<rparr>)
             (js ''order:created'') (OrderData ord))"
    by (simp only: dec)
  then show ?thesis
    by (simp add: st1_def ord_def st_def ls_def lines_for_def)
qed

lemma stock_of_accepted:
  assumes ag: "ids_agree (storage sv)"
    and valid: "insertOrderSchema body"
    and suff: "list_all (sufficient (storage sv)) (io_products body)"
  shows "stock_of (snd (place_order sv uuid now body)) i
           = map_option (\<lambda>s. subtract_all s (ordered_quantities (io_products body) i))
               (stock_of sv i)"
proof (cases "products (storage sv) i")
  case None
  then show ?thesis
    by (simp add: place_order_accepts [OF assms] stock_of_def getProduct_def broadcastUpdate_def)
next
  case (Some r)
  then show ?thesis
    by (simp add: place_order_accepts [OF assms] stock_of_def getProduct_def broadcastUpdate_def
        lines_for_key [OF ag Some] ordered_quantities_def)
qed

lemma ids_agree_with_available [simp]:
  "ids_agree (storage (with_available f sv)) = ids_agree (storage sv)"
  by (simp add: ids_agree_def with_available_def)

lemma sufficient_with_available [simp]:
  "sufficient (storage (with_available f sv)) = sufficient (storage sv)"
  by (simp add: fun_eq_iff sufficient_def with_available_def split: option.splits)

lemma new_order_with_available [simp]:
  "new_order (storage (with_available f sv)) = new_order (storage sv)"
  by (simp add: fun_eq_iff new_order_def resolved_def with_available_def snapshot_def)

lemma lines_for_with_available [simp]:
  "lines_for (storage (with_available f sv)) = lines_for (storage sv)"
  by (simp add: fun_eq_iff lines_for_def with_available_def)

lemma place_order_with_available:
  assumes ag: "ids_agree (storage sv)"
    and valid: "insertOrderSchema body"
    and suff: "list_all (sufficient (storage sv)) (io_products body)"
  shows "place_order (with_available f sv) uuid now body
           = (fst (place_order sv uuid now body),
              with_available f (snd (place_order sv uuid now body)))"
proof -
  have ag': "ids_agree (storage (with_available f sv))" using ag by simp
  have suff': "list_all (sufficient (storage (with_available f sv))) (io_products body)"
    using suff by simp
  have c1: "p\<lparr>p_available := a, p_stock := n\<rparr> = p\<lparr>p_stock := n, p_available := a\<rparr>"
    for p :: product and a n
    by simp
  have c2: "s\<lparr>storage := x, sockets := y\<rparr> = s\<lparr>sockets := y, storage := x\<rparr>"
    for s :: server and x y
    by simp
  show ?thesis
    by (simp add: place_order_accepts [OF ag' valid suff'] place_order_accepts [OF assms])
      (simp add: with_available_def broadcastUpdate_def c1 c2)
qed

lemma place_order_missing_product:
  assumes "insertOrderSchema body"
    and "list_ex (\<lambda>l. getProduct (storage sv) (productId l) = None) (io_products body)"
  shows "place_order sv uuid now body = (Failure NotFound, sv)"
proof -
  have "list_ex (\<lambda>p. p = None) (map (getProduct (storage sv)) (map productId (io_products body)))"
    using assms(2) by (force simp: list_ex_iff)
  with assms(1) show ?thesis
    by (simp add: place_order_def Let_def)
qed

lemma place_order_short_stock:
  assumes ag: "ids_agree (storage sv)"
    and valid: "insertOrderSchema body"
    and ex: "list_all (\<lambda>l. getProduct (storage sv) (productId l) \<noteq> None) (io_products body)"
    and split: "io_products body = pre @ l # post"
    and pre: "list_all (sufficient (storage sv)) pre"
    and short: "\<not> sufficient (storage sv) l"
  shows "place_order sv uuid now body
           = (Failure (InsufficientStock (Some (p_name (resolved (storage sv) l)))), sv)"
proof -
  define st where "st = storage sv"
  define ids where "ids = map productId (io_products body)"
  have gp: "getProduct = products"
    by (simp add: fun_eq_iff getProduct_def)
  have m: "\<forall>j r. products st j = Some r \<longrightarrow> p_id (heap st r) = j"
    using ag by (simp add: ids_agree_def st_def)
  have e: "\<forall>j\<in>set ids. products st j \<noteq> None"
    using ex by (auto simp: ids_def st_def gp list_all_iff)
  have sub: "productId ` set (pre @ l # post) \<subseteq> set ids"
    by (auto simp: ids_def split)
  have p: "\<forall>l'\<in>set pre.
      \<not> number_less (p_stock (heap st (the (products st (productId l'))))) (quantity l')"
    using pre by (auto simp: st_def list_all_iff sufficient_def split: option.splits)
  have "products st (productId l) \<noteq> None"
    using e by (simp add: ids_def split)
  with short
  have s: "number_less (p_stock (heap st (the (products st (productId l))))) (quantity l)"
    by (auto simp: st_def sufficient_def split: option.splits)
  have no_none: "\<not> list_ex (\<lambda>p. p = None) (map (products st) ids)"
    using e by (auto simp: list_ex_iff)
  have "check_stock (heap st) (map (products st) ids) (io_products body)
          = Some (InsufficientStock (Some (p_name (resolved st l))))"
    using check_stock_first_failure [OF m e sub p s] by (simp add: split resolved_def)
  with valid no_none show ?thesis
    by (simp add: place_order_def gp st_def [symmetric] ids_def [symmetric] Let_def)
qed

lemma place_order_failure_keeps_server:
  "fst (place_order sv uuid now body) = Failure e \<Longrightarrow> snd (place_order sv uuid now body) = sv"
  by (auto simp: place_order_def Let_def split: if_splits option.splits sum.splits prod.splits)

section \<open>The invariant of the product store\<close>

text \<open>
  \<open>storage_ok\<close> holds of a storage without products, as the constructor builds it, and
  every operation on products and orders keeps it; \<open>ids_agree\<close>, which the statements on
  order placement assume, follows from it.
\<close>

lemma storage_ok_ids_agree: "storage_ok st \<Longrightarrow> ids_agree st"
  by (simp add: storage_ok_def ids_agree_def)

lemma storage_ok_no_products: "products st = Map.empty \<Longrightarrow> storage_ok st"
  by (simp add: storage_ok_def)

lemma storage_ok_createProduct:
  "storage_ok st \<Longrightarrow> storage_ok (snd (createProduct st uuid now ins))"
  by (auto simp: storage_ok_def createProduct_def Let_def less_Suc_eq)

lemma storage_ok_updateProduct:
  "storage_ok st \<Longrightarrow> storage_ok (snd (updateProduct st i u))"
  by (auto simp: storage_ok_def updateProduct_def merge_product_def Let_def less_Suc_eq
      split: option.splits)

lemma storage_ok_deleteProduct:
  "storage_ok st \<Longrightarrow> storage_ok (snd (deleteProduct st i))"
  by (simp add: storage_ok_def deleteProduct_def)

lemma storage_ok_updateProductStock:
  "storage_ok st \<Longrightarrow> storage_ok (snd (updateProductStock st i n))"
  by (auto simp: storage_ok_def updateProductStock_def split: option.splits)

lemma storage_ok_updateProductImages:
  "storage_ok st \<Longrightarrow> storage_ok (snd (updateProductImages st i imgs))"
  by (auto simp: storage_ok_def updateProductImages_def split: option.splits)

lemma storage_ok_createOrder:
  "storage_ok st \<Longrightarrow> createOrder st uuid now body ps = Inr (ord, st') \<Longrightarrow> storage_ok st'"
  by (auto simp: storage_ok_def createOrder_def Let_def split: sum.splits)

lemma storage_ok_decrement_stock:
  "storage_ok st \<Longrightarrow> storage_ok (decrement_stock st ps ls)"
proof (induction ls arbitrary: st)
  case Nil
  then show ?case by simp
next
  case (Cons l ls)
  then show ?case
    by (simp add: storage_ok_updateProductStock split: option.splits)
qed

lemma storage_ok_place_order:
  assumes "storage_ok (storage sv)"
  shows "storage_ok (storage (snd (place_order sv uuid now body)))"
  using assms
  by (auto simp: place_order_def Let_def storage_ok_decrement_stock broadcastUpdate_def
      split: option.splits sum.splits dest: storage_ok_createOrder)

section \<open>Lemmas on the notifier, the status strings and the scenario data\<close>

lemma storage_broadcastUpdate [simp]: "storage (broadcastUpdate sv e d) = storage sv"
  by (simp add: broadcastUpdate_def)

lemma wsClients_broadcastUpdate [simp]: "wsClients (broadcastUpdate sv e d) = wsClients sv"
  by (simp add: broadcastUpdate_def)

lemma foldl_send_if_open:
  "distinct cs \<Longrightarrow>
   foldl (send_if_open m) sk cs c
     = (if c \<in> set cs \<and> readyState (sk c) = OPEN
        then (sk c)\<lparr>sent := sent (sk c) @ [m]\<rparr> else sk c)"
proof (induction cs arbitrary: sk)
  case Nil
  then show ?case by simp
next
  case (Cons a cs)
  have "readyState (send_if_open m sk a c) = readyState (sk c)"
    by (simp add: send_if_open_def)
  with Cons show ?case
    by (auto simp: send_if_open_def)
qed

lemma sockets_broadcastUpdate:
  "distinct (wsClients sv) \<Longrightarrow>
   sockets (broadcastUpdate sv e d) c
     = (if c \<in> set (wsClients sv) \<and> readyState (sockets sv c) = OPEN
        then (sockets sv c)\<lparr>sent := sent (sockets sv c) @ [Message e d]\<rparr>
        else sockets sv c)"
  by (simp add: broadcastUpdate_def foldl_send_if_open)

lemma parse_status_name [simp]: "parse_status (status_name t) = Some t"
  by (cases t) (simp_all add: parse_status_def js_def)

lemma parse_status_None: "(\<forall>t. s \<noteq> status_name t) \<Longrightarrow> parse_status s = None"
proof -
  assume a: "\<forall>t. s \<noteq> status_name t"
  from a [rule_format, of Pending] a [rule_format, of Completed] a [rule_format, of Cancelled]
  show ?thesis by (simp add: parse_status_def)
qed

lemma ids_agree_a_storage: "ids_agree (a_storage n av)"
  by (simp add: ids_agree_def a_storage_def a_product_def js_def)

lemma ids_agree_a_server: "ids_agree (storage (a_server n av))"
  by (simp add: a_server_def ids_agree_a_storage)

lemma valid_request:
  "ls \<noteq> [] \<Longrightarrow> list_all (\<lambda>l. number_less (Num 0) (quantity l)) ls \<Longrightarrow>
   insertOrderSchema (request ls)"
  by (cases ls) (simp_all add: insertOrderSchema_def request_def a_customer_def js_def)

section \<open>Lemmas on slugs\<close>

lemma replace_spaces_no_space:
  "list_all (\<lambda>c. \<not> is_space c) s \<Longrightarrow> replace_spaces s = s"
  by (induction s) simp_all

lemma slug_char_plain:
  "slug_char c \<Longrightarrow> \<not> is_space c \<and> c < 128 \<and> lower_ascii c = c"
  by (auto simp: slug_char_def is_space_def lower_ascii_def)

lemma lower_slug_chars:
  assumes "ascii_toLowerCase lc" and "list_all slug_char s"
  shows "lc s = s"
proof -
  from assms(2) have "list_all (\<lambda>c. c < 128) s"
    by (auto simp: list_all_iff dest: slug_char_plain)
  with assms(1) have "lc s = map lower_ascii s"
    by (simp add: ascii_toLowerCase_def)
  also from assms(2) have "map lower_ascii s = s"
    by (induction s) (simp_all add: slug_char_plain)
  finally show ?thesis .
qed

lemma slugify_fixes_slug:
  assumes "ascii_toLowerCase lc" and "list_all slug_char s"
  shows "slugify lc s = s"
proof -
  from assms(2) have "list_all (\<lambda>c. \<not> is_space c) s"
    by (auto simp: list_all_iff dest: slug_char_plain)
  then have "replace_spaces s = s"
    by (rule replace_spaces_no_space)
  moreover from assms(2) have "filter slug_char s = s"
    by (simp add: list_all_iff)
  ultimately show ?thesis
    by (simp add: slugify_def lower_slug_chars [OF assms])
qed

lemma slugify_slug_chars: "list_all slug_char (slugify lc s)"
  by (simp add: slugify_def list_all_iff)

lemma slugify_ascii:
  assumes "ascii_toLowerCase lc" and "list_all (\<lambda>c. c < 128) s"
  shows "slugify lc s = filter slug_char (replace_spaces (map lower_ascii s))"
  using assms by (simp add: slugify_def ascii_toLowerCase_def)

lemma ascii_toLowerCase_lower_units: "ascii_toLowerCase lower_units"
  by (simp add: ascii_toLowerCase_def lower_units_def)

section \<open>The claims\<close>

text \<open>
  C1. Stock is never negative after an order, also when the lines of the request repeat a
  product id. The code does not keep this: with stock 3, the request with the two lines
  (P, 2) and (P, 2) passes the check of each line (3 \<ge> 2, twice), is accepted, and the two
  decrements through the shared object leave the stock at -1.
\<close>

theorem place_order_repeated_line_negative_stock:
  "insertOrderSchema (request [line ''P'' 2, line ''P'' 2]) \<and>
   stock_of (a_server 3 True) (js ''P'') = Some (Num 3) \<and>
   (case place_order (a_server 3 True) (js ''o1'') 7 (request [line ''P'' 2, line ''P'' 2]) of
      (Success ord, sv') \<Rightarrow> stock_of sv' (js ''P'') = Some (Num (- 1))
    | (Failure e, sv') \<Rightarrow> False)"
  by (simp add: place_order_def insertOrderSchema_def request_def line_def a_customer_def
      a_server_def a_storage_def a_product_def js_def getProduct_def find_product_def
      createOrder_def order_total_def List.map_filter_def updateProductStock_def
      broadcastUpdate_def stock_of_def number_sub_def round_double_int Let_def)

text \<open>
  C2 (as the claim states it, refuted). The claim: only \<open>pending \<rightarrow> completed\<close> and
  \<open>pending \<rightarrow> cancelled\<close> are accepted. The route accepts \<open>completed \<rightarrow> pending\<close>: the
  stored order \<open>o1\<close> is completed, the request for "pending" succeeds and the stored
  order is pending afterwards.
\<close>

theorem status_completed_to_pending_accepted:
  "getOrder (storage (order_server Completed)) (js ''o1'') = Some (an_order Completed) \<and>
   o_status (an_order Completed) = Completed \<and>
   fst (put_order_status (order_server Completed) True (js ''o1'') (js ''pending''))
     = Success (an_order Pending) \<and>
   getOrder (storage (snd (put_order_status (order_server Completed) True (js ''o1'') (js ''pending''))))
     (js ''o1'') = Some (an_order Pending) \<and>
   o_status (an_order Pending) = Pending"
  by (simp add: put_order_status_def requireAdmin_def parse_status_def updateOrderStatus_def
      broadcastUpdate_def order_server_def an_order_def getOrder_def js_def a_server_def Let_def)

text \<open>
  C2 (amended). For every stored order and every requested status value, the status
  update of an authenticated admin accepts the request exactly when the value is one of
  "pending", "completed", "cancelled", whatever the status of the order is, and then the
  order carries that status; every other value is rejected and nothing changes.
\<close>

theorem status_update_sets_any_listed_status:
  assumes "getOrder (storage sv) i = Some ord"
  shows "(\<forall>t. fst (put_order_status sv True i (status_name t)) = Success (ord\<lparr>o_status := t\<rparr>) \<and>
              getOrder (storage (snd (put_order_status sv True i (status_name t)))) i
                = Some (ord\<lparr>o_status := t\<rparr>)) \<and>
         ((\<forall>t. s \<noteq> status_name t) \<longrightarrow>
              put_order_status sv True i s = (Failure InvalidStatus, sv))"
  using assms
  by (auto simp: put_order_status_def requireAdmin_def updateOrderStatus_def getOrder_def
      Let_def parse_status_None broadcastUpdate_def)

theorem status_update_sets_any_listed_status_witness:
  "getOrder (storage (order_server Cancelled)) (js ''o1'') = Some (an_order Cancelled) \<and>
   fst (put_order_status (order_server Cancelled) True (js ''o1'') (js ''completed''))
     = Success (an_order Completed) \<and>
   getOrder (storage (snd (put_order_status (order_server Cancelled) True (js ''o1'')
      (js ''completed'')))) (js ''o1'') = Some (an_order Completed) \<and>
   (\<forall>t. js ''shipped'' \<noteq> status_name t) \<and>
   put_order_status (order_server Cancelled) True (js ''o1'') (js ''shipped'')
     = (Failure InvalidStatus, order_server Cancelled)"
proof -
  have g: "getOrder (storage (order_server Cancelled)) (js ''o1'') = Some (an_order Cancelled)"
    by (simp add: order_server_def getOrder_def)
  have n: "js ''shipped'' \<noteq> status_name t" for t
    by (cases t) (simp_all add: js_def)
  have u: "(an_order Cancelled)\<lparr>o_status := Completed\<rparr> = an_order Completed"
    by (simp add: an_order_def)
  note t = status_update_sets_any_listed_status [OF g, of "js ''shipped''"]
  from t have 1: "fst (put_order_status (order_server Cancelled) True (js ''o1'') (js ''completed''))
     = Success (an_order Completed)"
    using u by (metis status_name.simps(2))
  from t have 2: "getOrder (storage (snd (put_order_status (order_server Cancelled) True (js ''o1'')
      (js ''completed'')))) (js ''o1'') = Some (an_order Completed)"
    using u by (metis status_name.simps(2))
  from t n have 3: "put_order_status (order_server Cancelled) True (js ''o1'') (js ''shipped'')
     = (Failure InvalidStatus, order_server Cancelled)"
    by blast
  show ?thesis using g 1 2 3 n by blast
qed

text \<open>
  C3. Placement fails with \<open>NotFound\<close> when a requested product id is not in the
  catalog, and with \<open>InsufficientStock\<close> naming the product at the first line whose
  quantity exceeds the stock; whenever placement fails, the server (catalog, orders,
  sockets) is what it was before the request.
\<close>

theorem place_order_failures_change_nothing:
  "(insertOrderSchema body \<and>
      list_ex (\<lambda>l. getProduct (storage sv) (productId l) = None) (io_products body) \<longrightarrow>
      fst (place_order sv uuid now body) = Failure NotFound) \<and>
   (ids_agree (storage sv) \<and> insertOrderSchema body \<and>
      list_all (\<lambda>l. getProduct (storage sv) (productId l) \<noteq> None) (io_products body) \<and>
      io_products body = pre @ l # post \<and>
      list_all (sufficient (storage sv)) pre \<and> \<not> sufficient (storage sv) l \<longrightarrow>
      fst (place_order sv uuid now body)
        = Failure (InsufficientStock (Some (p_name (resolved (storage sv) l))))) \<and>
   (\<forall>e. fst (place_order sv uuid now body) = Failure e \<longrightarrow>
      snd (place_order sv uuid now body) = sv)"
proof (intro conjI impI allI)
  assume "insertOrderSchema body \<and>
    list_ex (\<lambda>l. getProduct (storage sv) (productId l) = None) (io_products body)"
  then show "fst (place_order sv uuid now body) = Failure NotFound"
    by (simp add: place_order_missing_product)
next
  assume "ids_agree (storage sv) \<and> insertOrderSchema body \<and>
      list_all (\<lambda>l. getProduct (storage sv) (productId l) \<noteq> None) (io_products body) \<and>
      io_products body = pre @ l # post \<and>
      list_all (sufficient (storage sv)) pre \<and> \<not> sufficient (storage sv) l"
  then have "ids_agree (storage sv)" and "insertOrderSchema body"
    and "list_all (\<lambda>l. getProduct (storage sv) (productId l) \<noteq> None) (io_products body)"
    and "io_products body = pre @ l # post"
    and "list_all (sufficient (storage sv)) pre" and "\<not> sufficient (storage sv) l"
    by blast+
  then have "place_order sv uuid now body
           = (Failure (InsufficientStock (Some (p_name (resolved (storage sv) l)))), sv)"
    by (rule place_order_short_stock)
  then show "fst (place_order sv uuid now body)
        = Failure (InsufficientStock (Some (p_name (resolved (storage sv) l))))"
    by simp
next
  fix e
  assume "fst (place_order sv uuid now body) = Failure e"
  then show "snd (place_order sv uuid now body) = sv"
    by (rule place_order_failure_keeps_server)
qed

theorem place_order_failures_change_nothing_witness:
  "insertOrderSchema (request [line ''Q'' 1]) \<and>
   list_ex (\<lambda>l. getProduct (storage (a_server 3 True)) (productId l) = None)
     (io_products (request [line ''Q'' 1])) \<and>
   place_order (a_server 3 True) (js ''o1'') 7 (request [line ''Q'' 1])
     = (Failure NotFound, a_server 3 True) \<and>
   ids_agree (storage (a_server 3 True)) \<and>
   insertOrderSchema (request [line ''P'' 2, line ''P'' 5, line ''P'' 9]) \<and>
   list_all (\<lambda>l. getProduct (storage (a_server 3 True)) (productId l) \<noteq> None)
     (io_products (request [line ''P'' 2, line ''P'' 5, line ''P'' 9])) \<and>
   io_products (request [line ''P'' 2, line ''P'' 5, line ''P'' 9])
     = [line ''P'' 2] @ line ''P'' 5 # [line ''P'' 9] \<and>
   list_all (sufficient (storage (a_server 3 True))) [line ''P'' 2] \<and>
   \<not> sufficient (storage (a_server 3 True)) (line ''P'' 5) \<and>
   place_order (a_server 3 True) (js ''o1'') 7 (request [line ''P'' 2, line ''P'' 5, line ''P'' 9])
     = (Failure (InsufficientStock (Some (js ''Parrot''))), a_server 3 True)"
proof -
  let ?sv = "a_server 3 True"
  let ?b1 = "request [line ''Q'' 1]"
  let ?b2 = "request [line ''P'' 2, line ''P'' 5, line ''P'' 9]"
  have v1: "insertOrderSchema ?b1" and v2: "insertOrderSchema ?b2"
    by (simp_all add: valid_request line_def)
  have m1: "list_ex (\<lambda>l. getProduct (storage ?sv) (productId l) = None) (io_products ?b1)"
    by (simp add: request_def line_def getProduct_def a_server_def a_storage_def js_def)
  have e2: "list_all (\<lambda>l. getProduct (storage ?sv) (productId l) \<noteq> None) (io_products ?b2)"
    by (simp add: request_def line_def getProduct_def a_server_def a_storage_def js_def)
  have s2: "io_products ?b2 = [line ''P'' 2] @ line ''P'' 5 # [line ''P'' 9]"
    by (simp add: request_def)
  have p2: "list_all (sufficient (storage ?sv)) [line ''P'' 2]"
    by (simp add: sufficient_def line_def a_server_def a_storage_def a_product_def js_def)
  have n2: "\<not> sufficient (storage ?sv) (line ''P'' 5)"
    by (simp add: sufficient_def line_def a_server_def a_storage_def a_product_def js_def)
  have nm: "p_name (resolved (storage ?sv) (line ''P'' 5)) = js ''Parrot''"
    by (simp add: resolved_def line_def a_server_def a_storage_def a_product_def)
  note t1 = place_order_failures_change_nothing [of ?b1 ?sv "js ''o1''" 7 "[]" "line ''Q'' 1" "[]"]
  note t2 = place_order_failures_change_nothing
    [of ?b2 ?sv "js ''o1''" 7 "[line ''P'' 2]" "line ''P'' 5" "[line ''P'' 9]"]
  have r1: "place_order ?sv (js ''o1'') 7 ?b1 = (Failure NotFound, ?sv)"
    using t1 v1 m1 by (simp add: prod_eq_iff)
  have r2: "place_order ?sv (js ''o1'') 7 ?b2
              = (Failure (InsufficientStock (Some (js ''Parrot''))), ?sv)"
    using t2 v2 e2 s2 p2 n2 nm ids_agree_a_server [of 3 True] by (simp add: prod_eq_iff)
  show ?thesis
    using v1 m1 r1 ids_agree_a_server [of 3 True] v2 e2 s2 p2 n2 r2 by blast
qed

text \<open>
  C4 (as the claim states it, refuted). The claim: the total of a created order equals
  the sum of price times quantity over its lines. With the price 3 and the quantity
  3002399751580331 the order that \<open>createOrder\<close> returns has the total 9007199254740992:
  the product, 9007199254740993, is not a double and is rounded.
\<close>

theorem create_order_total_rounded:
  "createOrder cheap_storage (js ''o1'') 7 (request [line ''P'' 3002399751580331]) [0]
     = Inr (large_order, cheap_storage\<lparr>orders := [js ''o1'' \<mapsto> large_order]\<rparr>) \<and>
   o_totalAmountINR large_order = Num 9007199254740992 \<and>
   exact_total (o_products large_order) = 9007199254740993"
  by (simp add: createOrder_def request_def line_def cheap_storage_def a_storage_def
      a_product_def snapshot_def order_total_def large_order_def exact_total_def number_eval)

text \<open>
  C4 (amended). An order that \<open>createOrder\<close> returns has as total the sum, from left to
  right in double arithmetic, of the products price times quantity of its lines, each
  rounded to a double; this is the exact sum whenever prices and quantities are natural
  numbers and the exact sum is at most \<open>2^53\<close>. Its lines are, one for each requested
  line and in that order, the id and quantity of the request with the name and price of
  the product that the line resolves to, as they are when the order is created; the
  order is stored, and an \<open>updateProduct\<close> (of any product, with any patch) afterwards
  leaves it, and every other stored order, as it is.
\<close>

theorem create_order_snapshot_total:
  assumes "createOrder st uuid now body ps = Inr (ord, st')"
  shows "o_totalAmountINR ord
           = foldl number_add (Num 0)
               (map (\<lambda>l. number_mul (ol_priceInINR l) (ol_quantity l)) (o_products ord)) \<and>
         (list_all (\<lambda>l. is_count (ol_priceInINR l) \<and> is_count (ol_quantity l))
              (o_products ord) \<and>
            exact_total (o_products ord) \<le> 9007199254740992 \<longrightarrow>
            o_totalAmountINR ord = Num (exact_total (o_products ord))) \<and>
         list_all2
           (\<lambda>l ol. \<exists>r. List.find (\<lambda>r. p_id (heap st r) = productId l) ps = Some r \<and>
                         ol = \<lparr>ol_productId = productId l, ol_name = p_name (heap st r),
                               ol_priceInINR = p_priceInINR (heap st r),
                               ol_quantity = quantity l\<rparr>)
           (io_products body) (o_products ord) \<and>
         getOrder st' uuid = Some ord \<and>
         getOrder (snd (updateProduct st' i u)) uuid = Some ord \<and>
         orders (snd (updateProduct s i u)) = orders s"
proof -
  have lines: "order_lines h ps ls = Inr ols \<Longrightarrow>
      list_all2 (\<lambda>l ol. \<exists>r. List.find (\<lambda>r. p_id (h r) = productId l) ps = Some r \<and>
                         ol = \<lparr>ol_productId = productId l, ol_name = p_name (h r),
                               ol_priceInINR = p_priceInINR (h r),
                               ol_quantity = quantity l\<rparr>) ls ols" for h ls ols
  proof (induction ls arbitrary: ols)
    case Nil
    then show ?case by simp
  next
    case (Cons l ls)
    then show ?case
      by (auto simp: snapshot_def split: option.splits sum.splits)
  qed
  have upd: "orders (snd (updateProduct s i u)) = orders s" for s
    by (simp add: updateProduct_def Let_def split: option.splits)
  from assms obtain ols where ols: "order_lines (heap st) ps (io_products body) = Inr ols"
    and ord: "ord = \<lparr>o_id = uuid, o_products = ols, o_customer = io_customer body,
                     o_totalAmountINR = order_total ols, o_status = Pending, o_createdAt = now\<rparr>"
    and st': "st' = st\<lparr>orders := (orders st)(uuid \<mapsto> ord)\<rparr>"
    by (auto simp: createOrder_def Let_def split: sum.splits)
  have total: "o_totalAmountINR ord
           = foldl number_add (Num 0)
               (map (\<lambda>l. number_mul (ol_priceInINR l) (ol_quantity l)) (o_products ord))"
    by (simp add: ord order_total_map)
  have exact: "list_all (\<lambda>l. is_count (ol_priceInINR l) \<and> is_count (ol_quantity l))
              (o_products ord) \<and>
            exact_total (o_products ord) \<le> 9007199254740992 \<longrightarrow>
            o_totalAmountINR ord = Num (exact_total (o_products ord))"
    by (simp add: ord order_total_exact)
  have rest: "getOrder st' uuid = Some ord"
    "getOrder (snd (updateProduct st' i u)) uuid = Some ord"
    using upd by (simp_all add: st' getOrder_def)
  from lines [OF ols] have l2: "list_all2
           (\<lambda>l ol. \<exists>r. List.find (\<lambda>r. p_id (heap st r) = productId l) ps = Some r \<and>
                         ol = \<lparr>ol_productId = productId l, ol_name = p_name (heap st r),
                               ol_priceInINR = p_priceInINR (heap st r),
                               ol_quantity = quantity l\<rparr>)
           (io_products body) (o_products ord)"
    by (simp add: ord)
  show ?thesis
    using total exact l2 rest upd by blast
qed

theorem create_order_snapshot_total_witness:
  "createOrder (a_storage 3 True) (js ''o1'') 7 (request [line ''P'' 2, line ''P'' 1]) [0]
     = Inr (two_line_order, (a_storage 3 True)\<lparr>orders := [js ''o1'' \<mapsto> two_line_order]\<rparr>) \<and>
   list_all (\<lambda>l. is_count (ol_priceInINR l) \<and> is_count (ol_quantity l))
     (o_products two_line_order) \<and>
   exact_total (o_products two_line_order) = 500 * 2 + 500 * 1 \<and>
   o_totalAmountINR two_line_order = Num (500 * 2 + 500 * 1) \<and>
   map_option p_priceInINR
     (map_option
        (heap (snd (updateProduct ((a_storage 3 True)\<lparr>orders := [js ''o1'' \<mapsto> two_line_order]\<rparr>)
                      (js ''P'') price_update)))
        (getProduct
           (snd (updateProduct ((a_storage 3 True)\<lparr>orders := [js ''o1'' \<mapsto> two_line_order]\<rparr>)
                   (js ''P'') price_update))
           (js ''P''))) = Some (Num 900) \<and>
   getOrder
     (snd (updateProduct ((a_storage 3 True)\<lparr>orders := [js ''o1'' \<mapsto> two_line_order]\<rparr>)
             (js ''P'') price_update))
     (js ''o1'') = Some two_line_order"
proof -
  let ?st' = "(a_storage 3 True)\<lparr>orders := [js ''o1'' \<mapsto> two_line_order]\<rparr>"
  have c: "createOrder (a_storage 3 True) (js ''o1'') 7 (request [line ''P'' 2, line ''P'' 1]) [0]
     = Inr (two_line_order, ?st')"
    by (simp add: createOrder_def request_def line_def a_storage_def a_product_def
        snapshot_def order_total_def two_line_order_def round_double_int Let_def)
  have n: "list_all (\<lambda>l. is_count (ol_priceInINR l) \<and> is_count (ol_quantity l))
     (o_products two_line_order)"
    by (simp add: two_line_order_def is_count_def)
  have e: "exact_total (o_products two_line_order) = 500 * 2 + 500 * 1"
    by (simp add: two_line_order_def exact_total_def)
  have p: "map_option p_priceInINR
     (map_option (heap (snd (updateProduct ?st' (js ''P'') price_update)))
        (getProduct (snd (updateProduct ?st' (js ''P'') price_update)) (js ''P'')))
      = Some (Num 900)"
    by (simp add: updateProduct_def getProduct_def a_storage_def merge_product_def
        price_update_def Let_def)
  note t = create_order_snapshot_total [OF c, of "js ''P''" price_update]
  from t have "list_all (\<lambda>l. is_count (ol_priceInINR l) \<and> is_count (ol_quantity l))
        (o_products two_line_order) \<and>
      exact_total (o_products two_line_order) \<le> 9007199254740992 \<longrightarrow>
      o_totalAmountINR two_line_order = Num (exact_total (o_products two_line_order))"
    by blast
  with n e have x: "o_totalAmountINR two_line_order = Num (500 * 2 + 500 * 1)"
    by simp
  from t have g: "getOrder (snd (updateProduct ?st' (js ''P'') price_update)) (js ''o1'')
          = Some two_line_order"
    by blast
  from c n e x p g show ?thesis by blast
qed

text \<open>
  C5. The slug is a function of the name alone: lower-case it, put one hyphen for every
  run of white space, drop every unit that is not \<open>a\<close>-\<open>z\<close>, \<open>0\<close>-\<open>9\<close> or a hyphen.
  "Exotic Birds!" gives "exotic-birds"; the slug of a slug is that slug; \<open>createCategory\<close>
  stores the slug of the name it is given, and so does \<open>updateCategory\<close> for a name that
  is supplied (a string that is not empty, as the schema of the route requires).
\<close>

theorem slug_derivation:
  assumes "ascii_toLowerCase lc"
  shows "slugify lc (js ''Exotic Birds!'') = js ''exotic-birds'' \<and>
         slugify lc (slugify lc name) = slugify lc name \<and>
         c_slug (fst (createCategory lc st uuid now ins)) = slugify lc (ic_name ins) \<and>
         (\<forall>cat n. getCategory st i = Some cat \<and> uc_name u = Some n \<and> n \<noteq> [] \<longrightarrow>
            map_option c_slug (fst (updateCategory lc st i u)) = Some (slugify lc n) \<and>
            map_option c_name (fst (updateCategory lc st i u)) = Some n) \<and>
         (\<forall>cat. getCategory (storage sv) i = Some cat \<and> insertCategorySchema body \<longrightarrow>
            (\<exists>cat'. fst (put_category lc sv True i body) = Success cat' \<and>
               c_name cat' = ic_name body \<and> c_slug cat' = slugify lc (ic_name body)))"
proof (intro conjI allI impI)
  have "list_all (\<lambda>c. c < 128) (js ''Exotic Birds!'')"
    by (simp add: js_def)
  then show "slugify lc (js ''Exotic Birds!'') = js ''exotic-birds''"
    by (simp add: slugify_ascii [OF assms]) (simp add: js_def lower_ascii_def is_space_def slug_char_def)
next
  show "slugify lc (slugify lc name) = slugify lc name"
    by (rule slugify_fixes_slug [OF assms slugify_slug_chars])
next
  show "c_slug (fst (createCategory lc st uuid now ins)) = slugify lc (ic_name ins)"
    by (simp add: createCategory_def Let_def)
next
  fix cat n
  assume a: "getCategory st i = Some cat \<and> uc_name u = Some n \<and> n \<noteq> []"
  then show "map_option c_slug (fst (updateCategory lc st i u)) = Some (slugify lc n)"
    by (simp add: updateCategory_def getCategory_def Let_def)
  from a show "map_option c_name (fst (updateCategory lc st i u)) = Some n"
    by (simp add: updateCategory_def getCategory_def Let_def)
next
  fix cat
  assume "getCategory (storage sv) i = Some cat \<and> insertCategorySchema body"
  then show "\<exists>cat'. fst (put_category lc sv True i body) = Success cat' \<and>
               c_name cat' = ic_name body \<and> c_slug cat' = slugify lc (ic_name body)"
    by (auto simp: put_category_def requireAdmin_def updateCategory_def getCategory_def Let_def
        insertCategorySchema_def)
qed

theorem slug_derivation_witness:
  "ascii_toLowerCase lower_units \<and>
   slugify lower_units (js ''Exotic Birds!'') = js ''exotic-birds'' \<and>
   slugify lower_units (js ''Big  Cats & Dogs'') = js ''big-cats--dogs'' \<and>
   slugify lower_units (slugify lower_units (js ''Big  Cats & Dogs''))
     = slugify lower_units (js ''Big  Cats & Dogs'') \<and>
   getCategory (storage category_server) (js ''c1'') = Some a_category \<and>
   uc_name \<lparr>uc_name = Some (js ''Small Fish''), uc_description = None\<rparr>
     = Some (js ''Small Fish'') \<and>
   js ''Small Fish'' \<noteq> [] \<and>
   map_option c_slug (fst (updateCategory lower_units (storage category_server) (js ''c1'')
       \<lparr>uc_name = Some (js ''Small Fish''), uc_description = None\<rparr>))
     = Some (js ''small-fish'') \<and>
   insertCategorySchema \<lparr>ic_name = js ''Small Fish'', ic_description = []\<rparr> \<and>
   (\<exists>cat'. fst (put_category lower_units category_server True (js ''c1'')
               \<lparr>ic_name = js ''Small Fish'', ic_description = []\<rparr>) = Success cat' \<and>
      c_name cat' = js ''Small Fish'' \<and> c_slug cat' = js ''small-fish'')"
proof -
  let ?u = "\<lparr>uc_name = Some (js ''Small Fish''), uc_description = None\<rparr>"
  let ?b = "\<lparr>ic_name = js ''Small Fish'', ic_description = []\<rparr>"
  note t = slug_derivation [OF ascii_toLowerCase_lower_units,
      of "js ''Big  Cats & Dogs''" "storage category_server" "js ''c1''" 0 ?b "js ''c1''" ?u
         category_server ?b]
  have s1: "slugify lower_units (js ''Big  Cats & Dogs'') = js ''big-cats--dogs''"
    by (simp add: slugify_def lower_units_def)
      (simp add: js_def lower_ascii_def is_space_def slug_char_def)
  have s2: "slugify lower_units (js ''Small Fish'') = js ''small-fish''"
    by (simp add: slugify_def lower_units_def)
      (simp add: js_def lower_ascii_def is_space_def slug_char_def)
  have g: "getCategory (storage category_server) (js ''c1'') = Some a_category"
    by (simp add: category_server_def getCategory_def)
  have n: "js ''Small Fish'' \<noteq> []"
    by (simp add: js_def)
  have v: "insertCategorySchema ?b"
    by (simp add: insertCategorySchema_def js_def)
  from t g n have u: "map_option c_slug (fst (updateCategory lower_units (storage category_server)
      (js ''c1'') ?u)) = Some (js ''small-fish'')"
    by (simp add: s2)
  from t g v have r: "\<exists>cat'. fst (put_category lower_units category_server True (js ''c1'') ?b)
      = Success cat' \<and> c_name cat' = js ''Small Fish'' \<and> c_slug cat' = js ''small-fish''"
    by (simp add: s2)
  from t have e: "slugify lower_units (js ''Exotic Birds!'') = js ''exotic-birds''"
    and i: "slugify lower_units (slugify lower_units (js ''Big  Cats & Dogs''))
     = slugify lower_units (js ''Big  Cats & Dogs'')"
    by blast+
  show ?thesis
    using ascii_toLowerCase_lower_units e s1 i g n u v r by simp
qed

text \<open>
  C6. With a product of stock 2 in the catalog, an order for 2 of it succeeds; the
  product then has stock 0 (as \<open>getProduct\<close> shows it), every open subscriber was sent
  the \<open>order:created\<close> message with the order, and a following order for 1 of it fails
  with \<open>InsufficientStock\<close> naming the product, changing nothing.
\<close>

theorem order_uses_up_stock_then_refused:
  assumes ag: "ids_agree (storage sv)"
    and d: "distinct (wsClients sv)"
    and p: "getProduct (storage sv) i = Some r"
    and s: "p_stock (heap (storage sv) r) = Num 2"
    and v1: "insertOrderSchema b1"
    and l1: "io_products b1 = [\<lparr>productId = i, quantity = Num 2\<rparr>]"
    and v2: "insertOrderSchema b2"
    and l2: "io_products b2 = [\<lparr>productId = i, quantity = Num 1\<rparr>]"
  shows "fst (place_order sv u1 t1 b1) = Success (new_order (storage sv) u1 t1 b1) \<and>
         getProduct (storage (snd (place_order sv u1 t1 b1))) i = Some r \<and>
         p_stock (heap (storage (snd (place_order sv u1 t1 b1))) r) = Num 0 \<and>
         (\<forall>c\<in>set (wsClients sv). readyState (sockets sv c) = OPEN \<longrightarrow>
            sent (sockets (snd (place_order sv u1 t1 b1)) c)
              = sent (sockets sv c)
                @ [Message (js ''order:created'') (OrderData (new_order (storage sv) u1 t1 b1))]) \<and>
         place_order (snd (place_order sv u1 t1 b1)) u2 t2 b2
           = (Failure (InsufficientStock (Some (p_name (heap (storage sv) r)))),
              snd (place_order sv u1 t1 b1))"
proof -
  define sv1 where "sv1 = snd (place_order sv u1 t1 b1)"
  have pr: "products (storage sv) i = Some r"
    using p by (simp add: getProduct_def)
  have suff: "list_all (sufficient (storage sv)) (io_products b1)"
    using pr s by (simp add: l1 sufficient_def)
  note acc = place_order_accepts [OF ag v1 suff, of u1 t1]
  have lf: "lines_for (storage sv) r [\<lparr>productId = i, quantity = Num 2\<rparr>]
      = [\<lparr>productId = i, quantity = Num 2\<rparr>]"
    using pr by (simp add: lines_for_def)
  have st1: "storage sv1 = (storage sv)
      \<lparr>orders := (orders (storage sv))(u1 \<mapsto> new_order (storage sv) u1 t1 b1),
       heap := (\<lambda>r'. (heap (storage sv) r')\<lparr>p_stock :=
                 subtract_all (p_stock (heap (storage sv) r'))
                   (map quantity (lines_for (storage sv) r' (io_products b1)))\<rparr>)\<rparr>"
    by (simp add: sv1_def acc)
  have g1: "getProduct (storage sv1) i = Some r"
    using pr by (simp add: st1 getProduct_def)
  have h1: "heap (storage sv1) r = (heap (storage sv) r)\<lparr>p_stock := Num 0\<rparr>"
    using s by (simp add: st1 lf l1 subtract_all_def number_sub_def round_double_def)
  have sk: "sockets sv1 c
      = (if c \<in> set (wsClients sv) \<and> readyState (sockets sv c) = OPEN
         then (sockets sv c)\<lparr>sent := sent (sockets sv c)
                @ [Message (js ''order:created'') (OrderData (new_order (storage sv) u1 t1 b1))]\<rparr>
         else sockets sv c)" for c
    using d by (simp add: sv1_def acc sockets_broadcastUpdate)
  have ag1: "ids_agree (storage sv1)"
    using ag by (simp add: st1 ids_agree_def)
  have ex2: "list_all (\<lambda>l. getProduct (storage sv1) (productId l) \<noteq> None) (io_products b2)"
    using g1 by (simp add: l2)
  have sp2: "io_products b2 = [] @ \<lparr>productId = i, quantity = Num 1\<rparr> # []"
    by (simp add: l2)
  have short: "\<not> sufficient (storage sv1) \<lparr>productId = i, quantity = Num 1\<rparr>"
    using g1 h1 by (simp add: sufficient_def getProduct_def)
  have nm: "p_name (resolved (storage sv1) \<lparr>productId = i, quantity = Num 1\<rparr>)
      = p_name (heap (storage sv) r)"
    using g1 h1 by (simp add: resolved_def getProduct_def)
  have rej: "place_order sv1 u2 t2 b2
      = (Failure (InsufficientStock (Some (p_name (heap (storage sv) r)))), sv1)"
    using place_order_short_stock [OF ag1 v2 ex2 sp2 _ short, of u2 t2] nm by simp
  have f: "fst (place_order sv u1 t1 b1) = Success (new_order (storage sv) u1 t1 b1)"
    by (simp add: acc)
  show ?thesis
    using f g1 h1 sk rej unfolding sv1_def by simp
qed

theorem order_uses_up_stock_then_refused_witness:
  "ids_agree (storage live_server) \<and>
   distinct (wsClients live_server) \<and>
   getProduct (storage live_server) (js ''P'') = Some 0 \<and>
   p_stock (heap (storage live_server) 0) = Num 2 \<and>
   insertOrderSchema (request [line ''P'' 2]) \<and>
   io_products (request [line ''P'' 2]) = [\<lparr>productId = js ''P'', quantity = Num 2\<rparr>] \<and>
   insertOrderSchema (request [line ''P'' 1]) \<and>
   io_products (request [line ''P'' 1]) = [\<lparr>productId = js ''P'', quantity = Num 1\<rparr>] \<and>
   fst (place_order live_server (js ''o1'') 7 (request [line ''P'' 2]))
     = Success (new_order (a_storage 2 True) (js ''o1'') 7 (request [line ''P'' 2])) \<and>
   stock_of (snd (place_order live_server (js ''o1'') 7 (request [line ''P'' 2]))) (js ''P'')
     = Some (Num 0) \<and>
   sent (sockets (snd (place_order live_server (js ''o1'') 7 (request [line ''P'' 2]))) 1)
     = [created] \<and>
   fst (place_order (snd (place_order live_server (js ''o1'') 7 (request [line ''P'' 2])))
          (js ''o2'') 8 (request [line ''P'' 1]))
     = Failure (InsufficientStock (Some (js ''Parrot'')))"
proof -
  let ?b1 = "request [line ''P'' 2]"
  let ?b2 = "request [line ''P'' 1]"
  have ag: "ids_agree (storage live_server)"
    by (simp add: live_server_def ids_agree_a_storage)
  have d: "distinct (wsClients live_server)"
    by (simp add: live_server_def)
  have p: "getProduct (storage live_server) (js ''P'') = Some 0"
    by (simp add: live_server_def getProduct_def a_storage_def)
  have s: "p_stock (heap (storage live_server) 0) = Num 2"
    by (simp add: live_server_def a_storage_def a_product_def)
  have v1: "insertOrderSchema ?b1" and v2: "insertOrderSchema ?b2"
    by (simp_all add: valid_request line_def)
  have l1: "io_products ?b1 = [\<lparr>productId = js ''P'', quantity = Num 2\<rparr>]"
    and l2: "io_products ?b2 = [\<lparr>productId = js ''P'', quantity = Num 1\<rparr>]"
    by (simp_all add: request_def line_def)
  have st: "storage live_server = a_storage 2 True"
    by (simp add: live_server_def)
  have o1: "1 \<in> set (wsClients live_server)" "readyState (sockets live_server 1) = OPEN"
    "sent (sockets live_server 1) = []"
    by (simp_all add: live_server_def a_socket_def)
  have nm: "p_name (heap (storage live_server) 0) = js ''Parrot''"
    by (simp add: live_server_def a_storage_def a_product_def)
  note t = order_uses_up_stock_then_refused [OF ag d p s v1 l1 v2 l2, of "js ''o1''" 7 "js ''o2''" 8]
  from t have a: "fst (place_order live_server (js ''o1'') 7 ?b1)
      = Success (new_order (a_storage 2 True) (js ''o1'') 7 ?b1)"
    by (simp add: st)
  from t
  have b: "stock_of (snd (place_order live_server (js ''o1'') 7 ?b1)) (js ''P'') = Some (Num 0)"
    by (simp add: stock_of_def)
  from t o1 have c: "sent (sockets (snd (place_order live_server (js ''o1'') 7 ?b1)) 1) = [created]"
    by (simp add: st created_def)
  from t have e: "fst (place_order (snd (place_order live_server (js ''o1'') 7 ?b1))
          (js ''o2'') 8 ?b2) = Failure (InsufficientStock (Some (js ''Parrot'')))"
    by (simp add: nm)
  show ?thesis
    using ag d p s v1 l1 v2 l2 a b c e by blast
qed

text \<open>
  C7. A broadcast hands the same message to every registered socket that is open, and
  only to those: a socket that is not open, or not registered, is left as it is, and the
  broadcast itself changes nothing else (it has no failing branch). A socket is in the
  registry after its connection and out of it after its \<open>close\<close> or \<open>error\<close> event, and the
  registry stays free of repetitions.
\<close>

theorem broadcast_reaches_open_subscribers:
  assumes "distinct (wsClients sv)"
  shows "(\<forall>c\<in>set (wsClients sv). readyState (sockets sv c) = OPEN \<longrightarrow>
            sockets (broadcastUpdate sv e d) c
              = (sockets sv c)\<lparr>sent := sent (sockets sv c) @ [Message e d]\<rparr>) \<and>
         (\<forall>c. readyState (sockets sv c) \<noteq> OPEN \<longrightarrow>
            sockets (broadcastUpdate sv e d) c = sockets sv c) \<and>
         (\<forall>c. c \<notin> set (wsClients sv) \<longrightarrow>
            sockets (broadcastUpdate sv e d) c = sockets sv c) \<and>
         storage (broadcastUpdate sv e d) = storage sv \<and>
         wsClients (broadcastUpdate sv e d) = wsClients sv \<and>
         set (wsClients (on_connection sv ws)) = insert ws (set (wsClients sv)) \<and>
         set (wsClients (on_close sv ws)) = set (wsClients sv) - {ws} \<and>
         set (wsClients (on_error sv ws)) = set (wsClients sv) - {ws} \<and>
         distinct (wsClients (on_connection sv ws)) \<and>
         distinct (wsClients (on_close sv ws)) \<and>
         distinct (wsClients (on_error sv ws))"
  using assms
  by (auto simp: sockets_broadcastUpdate on_connection_def on_close_def on_error_def
      distinct_removeAll)

theorem broadcast_reaches_open_subscribers_witness:
  "distinct (wsClients (on_close live_server 3)) \<and>
   wsClients (on_close live_server 3) = [1, 2] \<and>
   sockets (broadcastUpdate (on_close live_server 3) (js ''category:created'')
              (CategoryData a_category)) 1
     = \<lparr>readyState = OPEN,
        sent = [Message (js ''category:created'') (CategoryData a_category)]\<rparr> \<and>
   sockets (broadcastUpdate (on_close live_server 3) (js ''category:created'')
              (CategoryData a_category)) 2
     = \<lparr>readyState = OPEN,
        sent = [Message (js ''category:created'') (CategoryData a_category)]\<rparr> \<and>
   sockets (broadcastUpdate (on_close live_server 3) (js ''category:created'')
              (CategoryData a_category)) 3
     = \<lparr>readyState = CLOSED, sent = []\<rparr> \<and>
   distinct (wsClients live_server) \<and>
   3 \<in> set (wsClients live_server) \<and>
   sockets (broadcastUpdate live_server (js ''category:created'') (CategoryData a_category)) 3
     = \<lparr>readyState = CLOSED, sent = []\<rparr>"
proof -
  let ?sv = "on_close live_server 3"
  have d0: "distinct (wsClients live_server)" and m0: "3 \<in> set (wsClients live_server)"
    by (simp_all add: live_server_def)
  have w: "wsClients ?sv = [1, 2]"
    by (simp add: on_close_def live_server_def)
  then have d: "distinct (wsClients ?sv)"
    by simp
  have sk: "sockets ?sv 1 = a_socket OPEN" "sockets ?sv 2 = a_socket OPEN"
    "sockets ?sv 3 = a_socket CLOSED" "sockets live_server 3 = a_socket CLOSED"
    by (simp_all add: on_close_def live_server_def)
  note t = broadcast_reaches_open_subscribers
    [OF d, of "js ''category:created''" "CategoryData a_category"]
  note t0 = broadcast_reaches_open_subscribers
    [OF d0, of "js ''category:created''" "CategoryData a_category"]
  from t w sk have 1: "sockets (broadcastUpdate ?sv (js ''category:created'')
      (CategoryData a_category)) 1
     = \<lparr>readyState = OPEN, sent = [Message (js ''category:created'') (CategoryData a_category)]\<rparr>"
    by (simp add: a_socket_def)
  from t w sk have 2: "sockets (broadcastUpdate ?sv (js ''category:created'')
      (CategoryData a_category)) 2
     = \<lparr>readyState = OPEN, sent = [Message (js ''category:created'') (CategoryData a_category)]\<rparr>"
    by (simp add: a_socket_def)
  from t w sk have 3: "sockets (broadcastUpdate ?sv (js ''category:created'')
      (CategoryData a_category)) 3 = \<lparr>readyState = CLOSED, sent = []\<rparr>"
    by (simp add: a_socket_def)
  from t0 sk have 4: "sockets (broadcastUpdate live_server (js ''category:created'')
      (CategoryData a_category)) 3 = \<lparr>readyState = CLOSED, sent = []\<rparr>"
    by (simp add: a_socket_def)
  show ?thesis
    using d w 1 2 3 d0 m0 4 by blast
qed

text \<open>
  C8. \<open>updateSiteSettings\<close> returns the current settings with the fields of the patch and
  the new time stamp (the id is kept), the storage holds exactly that record afterwards,
  and \<open>getSiteSettings\<close> right after returns it.
\<close>

theorem update_settings_then_get:
  "fst (updateSiteSettings st now patch)
     = \<lparr>s_id = s_id (siteSettings st), s_description = us_description patch,
        s_youtubeUrl = us_youtubeUrl patch, s_updatedAt = now\<rparr> \<and>
   getSiteSettings (snd (updateSiteSettings st now patch)) = fst (updateSiteSettings st now patch) \<and>
   snd (updateSiteSettings st now patch)
     = st\<lparr>siteSettings := fst (updateSiteSettings st now patch)\<rparr>"
  by (simp add: updateSiteSettings_def getSiteSettings_def Let_def)

text \<open>
  C9. \<open>deleteCategory\<close> answers whether the category existed and removes that entry
  only: the products and their objects are the same afterwards, also those whose
  \<open>categoryId\<close> is the deleted id. The same holds through the admin route.
\<close>

theorem delete_category_keeps_products:
  "fst (deleteCategory st i) = (getCategory st i \<noteq> None) \<and>
   snd (deleteCategory st i) = st\<lparr>categories := (categories st)(i := None)\<rparr> \<and>
   products (snd (deleteCategory st i)) = products st \<and>
   heap (snd (deleteCategory st i)) = heap st \<and>
   products (storage (snd (delete_category sv a i))) = products (storage sv) \<and>
   heap (storage (snd (delete_category sv a i))) = heap (storage sv)"
  by (simp add: deleteCategory_def getCategory_def delete_category_def requireAdmin_def
      broadcastUpdate_def split: bool.splits)

text \<open>
  C10 (as the claim states it, refuted). The claim: whenever the products exist with
  stock at least the requested quantity, the order succeeds and stock is decremented.
  With stock \<open>10^17\<close> and the quantity 1 the order succeeds and the stock is what it was:
  \<open>10^17 - 1\<close> is not a double and rounds back to \<open>10^17\<close>.
\<close>

theorem place_order_stock_not_decremented:
  "insertOrderSchema (request [line ''P'' 1]) \<and>
   list_all (sufficient (storage (a_server 100000000000000000 True)))
     (io_products (request [line ''P'' 1])) \<and>
   stock_of (a_server 100000000000000000 True) (js ''P'') = Some (Num 100000000000000000) \<and>
   (case place_order (a_server 100000000000000000 True) (js ''o1'') 7 (request [line ''P'' 1]) of
      (Success ord, sv') \<Rightarrow> stock_of sv' (js ''P'') = Some (Num 100000000000000000)
    | (Failure e, sv') \<Rightarrow> False)"
  by (simp add: place_order_def insertOrderSchema_def request_def line_def a_customer_def
      a_server_def a_storage_def a_product_def js_def getProduct_def find_product_def
      createOrder_def order_total_def List.map_filter_def updateProductStock_def
      broadcastUpdate_def stock_of_def sufficient_def number_eval)

text \<open>
  C10 (amended). Order placement does not look at \<open>available\<close>: a valid request whose
  lines each find their product with enough stock is accepted, and the stock of every
  product becomes what the double subtraction of the quantities that the lines ask of
  it, one after the other, leaves of it, whatever the flags are. This is the exact
  difference whenever the stock and these quantities are natural numbers, the stock is
  at most \<open>2^53\<close> and the quantities together do not exceed it. Setting the flags of all
  products in any way gives the same response and the same resulting server, up to the
  flags.
\<close>

theorem place_order_ignores_available:
  assumes "ids_agree (storage sv)"
    and "insertOrderSchema body"
    and "list_all (sufficient (storage sv)) (io_products body)"
  shows "fst (place_order sv uuid now body) = Success (new_order (storage sv) uuid now body) \<and>
         stock_of (snd (place_order sv uuid now body)) i
           = map_option (\<lambda>s. subtract_all s (ordered_quantities (io_products body) i))
               (stock_of sv i) \<and>
         (\<forall>s. stock_of sv i = Some s \<and> is_count s \<and>
               list_all is_count (ordered_quantities (io_products body) i) \<and>
               exact_sum (ordered_quantities (io_products body) i) \<le> value_of s \<and>
               value_of s \<le> 9007199254740992 \<longrightarrow>
            stock_of (snd (place_order sv uuid now body)) i
              = Some (Num (value_of s - exact_sum (ordered_quantities (io_products body) i)))) \<and>
         place_order (with_available f sv) uuid now body
           = (fst (place_order sv uuid now body),
              with_available f (snd (place_order sv uuid now body)))"
  using stock_of_accepted [OF assms] place_order_with_available [OF assms]
  by (simp add: place_order_accepts [OF assms] subtract_all_exact)

theorem place_order_ignores_available_witness:
  "ids_agree (storage (a_server 2 False)) \<and>
   insertOrderSchema (request [line ''P'' 2]) \<and>
   list_all (sufficient (storage (a_server 2 False))) (io_products (request [line ''P'' 2])) \<and>
   \<not> p_available (resolved (storage (a_server 2 False)) (line ''P'' 2)) \<and>
   fst (place_order (a_server 2 False) (js ''o1'') 7 (request [line ''P'' 2]))
     = Success (new_order (storage (a_server 2 False)) (js ''o1'') 7 (request [line ''P'' 2])) \<and>
   stock_of (a_server 2 False) (js ''P'') = Some (Num 2) \<and>
   is_count (Num 2) \<and>
   list_all is_count (ordered_quantities (io_products (request [line ''P'' 2])) (js ''P'')) \<and>
   exact_sum (ordered_quantities (io_products (request [line ''P'' 2])) (js ''P'')) = 2 \<and>
   stock_of (snd (place_order (a_server 2 False) (js ''o1'') 7 (request [line ''P'' 2]))) (js ''P'')
     = Some (Num 0)"
proof -
  let ?sv = "a_server 2 False"
  let ?b = "request [line ''P'' 2]"
  have v: "insertOrderSchema ?b"
    by (simp add: valid_request line_def)
  have s: "list_all (sufficient (storage ?sv)) (io_products ?b)"
    by (simp add: request_def sufficient_def line_def a_server_def a_storage_def a_product_def js_def)
  have a: "\<not> p_available (resolved (storage ?sv) (line ''P'' 2))"
    by (simp add: resolved_def a_server_def a_storage_def a_product_def)
  have k: "stock_of ?sv (js ''P'') = Some (Num 2)"
    by (simp add: stock_of_def getProduct_def a_server_def a_storage_def a_product_def)
  have c: "is_count (Num 2)"
    by (simp add: is_count_def)
  have q: "ordered_quantities (io_products ?b) (js ''P'') = [Num 2]"
    by (simp add: ordered_quantities_def request_def line_def)
  have qc: "list_all is_count (ordered_quantities (io_products ?b) (js ''P''))"
    by (simp add: q is_count_def)
  have qs: "exact_sum (ordered_quantities (io_products ?b) (js ''P'')) = 2"
    by (simp add: q exact_sum_def)
  note t = place_order_ignores_available
    [OF ids_agree_a_server [of 2 False] v s, of "js ''o1''" 7 "js ''P''"]
  from t have "stock_of ?sv (js ''P'') = Some (Num 2) \<and> is_count (Num 2) \<and>
      list_all is_count (ordered_quantities (io_products ?b) (js ''P'')) \<and>
      exact_sum (ordered_quantities (io_products ?b) (js ''P'')) \<le> value_of (Num 2) \<and>
      value_of (Num 2) \<le> 9007199254740992 \<longrightarrow>
      stock_of (snd (place_order ?sv (js ''o1'') 7 ?b)) (js ''P'')
        = Some (Num (value_of (Num 2)
            - exact_sum (ordered_quantities (io_products ?b) (js ''P''))))"
    by blast
  with k c qc qs
  have "stock_of (snd (place_order ?sv (js ''o1'') 7 ?b)) (js ''P'') = Some (Num 0)"
    by simp
  with t v s a k c qc qs ids_agree_a_server [of 2 False] show ?thesis
    by blast
qed

end
